theory Spec2Isabelle
  imports Complex_Main
begin

section \<open>Python errors\<close>

text \<open>
  Every \<^verbatim>\<open>raise\<close>, failed \<^verbatim>\<open>assert\<close> and failing subscript of the source is a value of
  \<open>py_error\<close>; a fallible function returns \<open>py_error + 'a\<close> with \<open>Inl\<close> the exception.
\<close>

datatype py_error = AssertionError | IndexError | TypeError | ValueError | RuntimeError
  | AttributeError | OSError | ZeroDivisionError

definition bind_err :: "py_error + 'a \<Rightarrow> ('a \<Rightarrow> py_error + 'b) \<Rightarrow> py_error + 'b" where
  "bind_err m k = (case m of Inl e \<Rightarrow> Inl e | Inr v \<Rightarrow> k v)"

text \<open>\<^verbatim>\<open>xs[i]\<close> on a Python list with a non-negative index.\<close>

definition py_nth :: "'a list \<Rightarrow> nat \<Rightarrow> py_error + 'a" where
  "py_nth xs i = (if i < length xs then Inr (xs ! i) else Inl IndexError)"

text \<open>A \<^verbatim>\<open>for\<close> loop whose body can raise: the first exception ends the loop.\<close>

fun for_each :: "('s \<Rightarrow> 'a \<Rightarrow> py_error + 's) \<Rightarrow> 's \<Rightarrow> 'a list \<Rightarrow> py_error + 's" where
  "for_each body s [] = Inr s"
| "for_each body s (x # xs) = bind_err (body s x) (\<lambda>s'. for_each body s' xs)"

section \<open>Tensors\<close>

text \<open>
  A tensor is a nest of rows over the reals: \<open>Sc r\<close> is a Python number or a tensor with
  no dimension, \<open>Ten ts\<close> is a tensor whose first dimension runs over \<open>ts\<close>. Floating-point
  rounding is not modelled. A tensor with an empty dimension keeps no trace of the
  dimensions after it.
\<close>

datatype tensor = Sc real | Ten "tensor list"

fun dims :: "tensor \<Rightarrow> nat list" where
  "dims (Sc r) = []"
| "dims (Ten []) = [0]"
| "dims (Ten (t # ts)) = Suc (length ts) # dims t"

text \<open>
  Broadcasting as torch does it: shapes are aligned at their last dimension, and two
  aligned dimensions are compatible when they are equal or one of them is 1.
\<close>

fun compat_rev :: "nat list \<Rightarrow> nat list \<Rightarrow> bool" where
  "compat_rev [] ys = True"
| "compat_rev (x # xs) [] = True"
| "compat_rev (x # xs) (y # ys) = ((x = y \<or> x = 1 \<or> y = 1) \<and> compat_rev xs ys)"

definition broadcastable :: "tensor \<Rightarrow> tensor \<Rightarrow> bool" where
  "broadcastable a b = compat_rev (rev (dims a)) (rev (dims b))"

lemma size_tensor_mem: "x \<in> set xs \<Longrightarrow> size (x::tensor) \<le> size_list size xs"
  by (induction xs) auto

function (sequential) bop :: "(real \<Rightarrow> real \<Rightarrow> real) \<Rightarrow> tensor \<Rightarrow> tensor \<Rightarrow> tensor" where
  "bop f (Sc x) (Sc y) = Sc (f x y)"
| "bop f (Sc x) (Ten ys) = Ten (map (bop f (Sc x)) ys)"
| "bop f (Ten xs) (Sc y) = Ten (map (\<lambda>x. bop f x (Sc y)) xs)"
| "bop f (Ten xs) (Ten ys) =
    (if length (dims (Ten xs)) < length (dims (Ten ys)) then Ten (map (bop f (Ten xs)) ys)
     else if length (dims (Ten ys)) < length (dims (Ten xs)) then Ten (map (\<lambda>x. bop f x (Ten ys)) xs)
     else if length xs = length ys then Ten (map (\<lambda>(x, y). bop f x y) (zip xs ys))
     else if length xs = 1 then Ten (map (bop f (hd xs)) ys)
     else if length ys = 1 then Ten (map (\<lambda>x. bop f x (hd ys)) xs)
     else Ten [])"
  by pat_completeness auto
termination
proof (relation "measure (\<lambda>(f, a, b). size a + size b)", goal_cases)
  case (6 f xs ys z x y)
  then have "x \<in> set xs" and "y \<in> set ys"
    by (auto dest: set_zip_leftD set_zip_rightD)
  then show ?case
    using size_tensor_mem [of x xs] size_tensor_mem [of y ys] by simp
next
  case (7 f xs ys x)
  then show ?case by (cases xs) (auto simp: less_Suc_eq_le dest: size_tensor_mem)
next
  case (8 f xs ys x)
  then show ?case by (cases ys) (auto simp: less_Suc_eq_le dest: size_tensor_mem)
qed (auto simp: less_Suc_eq_le dest: size_tensor_mem)

text \<open>\<^verbatim>\<open>a * b\<close> and \<^verbatim>\<open>a + b\<close>: a RuntimeError when the shapes do not broadcast.\<close>

definition tmul :: "tensor \<Rightarrow> tensor \<Rightarrow> py_error + tensor" where
  "tmul a b = (if broadcastable a b then Inr (bop (*) a b) else Inl RuntimeError)"

definition tadd :: "tensor \<Rightarrow> tensor \<Rightarrow> py_error + tensor" where
  "tadd a b = (if broadcastable a b then Inr (bop (+) a b) else Inl RuntimeError)"

text \<open>Iterating a tensor yields its rows; a tensor with no dimension cannot be iterated.\<close>

definition iter_tensor :: "tensor \<Rightarrow> py_error + tensor list" where
  "iter_tensor t = (case t of Sc r \<Rightarrow> Inl TypeError | Ten ts \<Rightarrow> Inr ts)"

text \<open>
  Shapes and entries, to state what a tensor holds: \<open>has_shape s t\<close> says that \<open>t\<close> is a
  full tensor of shape \<open>s\<close>, \<open>entry t idx\<close> is its element at the index \<open>idx\<close>, and
  \<open>valid_index s idx\<close> says that \<open>idx\<close> is an index of the shape \<open>s\<close>.
\<close>

fun has_shape :: "nat list \<Rightarrow> tensor \<Rightarrow> bool" where
  "has_shape [] (Sc r) = True"
| "has_shape (n # s) (Ten ts) = (length ts = n \<and> list_all (has_shape s) ts)"
| "has_shape s t = False"

fun entry :: "tensor \<Rightarrow> nat list \<Rightarrow> real" where
  "entry (Sc r) idx = r"
| "entry (Ten ts) [] = 0"
| "entry (Ten ts) (i # idx) = (if i < length ts then entry (ts ! i) idx else 0)"

fun valid_index :: "nat list \<Rightarrow> nat list \<Rightarrow> bool" where
  "valid_index [] [] = True"
| "valid_index (n # s) (i # idx) = (i < n \<and> valid_index s idx)"
| "valid_index s idx = False"

section \<open>Modules and the Mixed Operation\<close>

text \<open>
  Tensors that training mutates live in a store, addressed by reference. A module
  (\<^verbatim>\<open>nn.Module\<close>) is what the source does with one: it calls it on an activation, it
  asks for its \<^verbatim>\<open>len\<close> (only containers such as \<^verbatim>\<open>nn.Sequential\<close> have one), and
  training reads its parameters. Calling reads the parameters' current values from the
  store and may raise.
\<close>

type_synonym ref = nat

type_synonym store = "ref \<Rightarrow> tensor"

record module =
  m_params :: "ref list"
  m_len :: "nat option"
  m_call :: "store \<Rightarrow> tensor \<Rightarrow> py_error + tensor"

text \<open>An entry of the block sequence is a module or a Python list of modules.\<close>

datatype block = Module module | PyList "module list"

record MixedOp =
  mo_ops :: "module list"

text \<open>\<^verbatim>\<open>MixedOp.__init__\<close>: the candidates are appended to a \<^verbatim>\<open>ModuleList\<close> in order.\<close>

definition MixedOp_init :: "module list \<Rightarrow> MixedOp" where
  "MixedOp_init blocks = \<lparr>mo_ops = foldl (\<lambda>ops op. ops @ [op]) [] blocks\<rparr>"

text \<open>
  \<^verbatim>\<open>sum(w * op(x) for w, op in zip(weights, self._ops))\<close>: \<^verbatim>\<open>zip\<close> stops at the shorter
  of its arguments; \<^verbatim>\<open>sum\<close> starts from the integer 0 and adds each term as the
  generator yields it, so the first failing call, product or addition ends the sum.
\<close>

fun mixed_sum :: "store \<Rightarrow> tensor \<Rightarrow> tensor \<Rightarrow> (tensor \<times> module) list \<Rightarrow> py_error + tensor" where
  "mixed_sum st x acc [] = Inr acc"
| "mixed_sum st x acc ((w, op) # ps) =
     bind_err (m_call op st x) (\<lambda>y.
     bind_err (tmul w y) (\<lambda>v.
     bind_err (tadd acc v) (\<lambda>acc'.
     mixed_sum st x acc' ps)))"

definition MixedOp_forward :: "store \<Rightarrow> MixedOp \<Rightarrow> tensor \<Rightarrow> tensor \<Rightarrow> py_error + tensor" where
  "MixedOp_forward st m x weights =
     bind_err (iter_tensor weights) (\<lambda>ws. mixed_sum st x (Sc 0) (zip ws (mo_ops m)))"

text \<open>
  The heap is the store with the next free reference; a new tensor takes that
  reference. The arguments of \<^verbatim>\<open>nn.Conv2d\<close> are the channels, the kernel size, the stride,
  the padding, the groups and the bias flag.
\<close>

record heap =
  h_val :: store
  h_next :: ref

definition alloc :: "heap \<Rightarrow> tensor \<Rightarrow> ref \<times> heap" where
  "alloc h v = (h_next h, \<lparr>h_val = (h_val h)(h_next h := v), h_next = Suc (h_next h)\<rparr>)"

record conv_args =
  cv_in :: int
  cv_out :: int
  cv_kernel :: int
  cv_stride :: int
  cv_padding :: int
  cv_groups :: int
  cv_bias :: bool

section \<open>The library environment\<close>

text \<open>
  What the source calls in Python's and torch's libraries and does not define itself is
  a parameter of the model, so that every theorem holds whatever these functions return:
  \<^item> \<open>py_float\<close> is \<^verbatim>\<open>float(s)\<close> (\<open>None\<close> for a ValueError) and \<open>py_str\<close> is \<^verbatim>\<open>str(t)\<close>;
  \<^item> \<open>gumbel_softmax\<close> is the relaxed sample drawn for a tensor of logits at a
    temperature (the noise is whatever this function adds);
  \<^item> \<open>torch_tensor\<close>, \<open>nn_avg_pool2d\<close>, \<open>linear\<close>, \<open>cross_entropy\<close>, \<open>torch_pow\<close> and
    \<open>accuracy\<close> are the calls that follow the loop of \<^verbatim>\<open>FBNet.forward\<close>;
  \<^item> \<open>linear_init\<close> gives the initial weight and bias of \<^verbatim>\<open>nn.Linear\<close>, and \<open>nn_Conv2d\<close>
    is the constructor of a convolution: it checks its arguments, takes references for
    its new parameters and returns the module;
  \<^item> \<open>tensor_eq_bool\<close> is the truth value of \<^verbatim>\<open>a == b\<close> on two tensors, which can raise;
  \<^item> \<open>sgd_check\<close> and \<open>adam_check\<close> are the argument checks of the two optimizers'
    constructors (\<open>None\<close> when the optimizer is built), \<open>w_update\<close> and \<open>t_update\<close> give
    the value a step of the optimizer writes into one of its parameters, from the
    store, the batch and the temperature of the step.
\<close>

record env =
  py_float :: "string \<Rightarrow> real option"
  py_str :: "tensor \<Rightarrow> string"
  gumbel_softmax :: "tensor \<Rightarrow> real \<Rightarrow> tensor"
  torch_tensor :: "tensor list \<Rightarrow> py_error + tensor"
  nn_avg_pool2d :: "tensor \<Rightarrow> py_error + tensor"
  linear :: "tensor \<Rightarrow> tensor \<Rightarrow> tensor \<Rightarrow> py_error + tensor"
  cross_entropy :: "tensor \<Rightarrow> tensor \<Rightarrow> py_error + tensor"
  torch_pow :: "real \<Rightarrow> real \<Rightarrow> real"
  accuracy :: "tensor \<Rightarrow> tensor \<Rightarrow> nat \<Rightarrow> py_error + real"
  linear_init :: "nat \<Rightarrow> nat \<Rightarrow> tensor \<times> tensor"
  nn_Conv2d :: "conv_args \<Rightarrow> heap \<Rightarrow> py_error + module \<times> heap"
  tensor_eq_bool :: "tensor \<Rightarrow> tensor \<Rightarrow> py_error + bool"
  sgd_check :: "ref list \<Rightarrow> real \<Rightarrow> real \<Rightarrow> real \<Rightarrow> py_error option"
  adam_check :: "ref list \<Rightarrow> real \<Rightarrow> real \<Rightarrow> py_error option"
  w_update :: "store \<Rightarrow> tensor \<Rightarrow> tensor \<Rightarrow> real \<Rightarrow> ref \<Rightarrow> tensor"
  t_update :: "store \<Rightarrow> tensor \<Rightarrow> tensor \<Rightarrow> real \<Rightarrow> ref \<Rightarrow> tensor"

section \<open>Strings and files\<close>

text \<open>
  \<^verbatim>\<open>s.strip()\<close>, \<^verbatim>\<open>s.split(' ')\<close>, \<^verbatim>\<open>sep.join(xs)\<close> and \<^verbatim>\<open>f.readlines()\<close> in text mode,
  which reads \<^verbatim>\<open>\r\n\<close> and \<^verbatim>\<open>\r\<close> as \<^verbatim>\<open>\n\<close> and keeps the line ends. A file system maps a
  path to the content of the file there.
\<close>

definition py_isspace :: "char \<Rightarrow> bool" where
  "py_isspace c = ((of_char c :: nat) \<in> {9, 10, 11, 12, 13, 28, 29, 30, 31, 32, 133, 160})"

definition strip :: "string \<Rightarrow> string" where
  "strip s = rev (dropWhile py_isspace (rev (dropWhile py_isspace s)))"

fun split_on :: "char \<Rightarrow> string \<Rightarrow> string list" where
  "split_on c [] = [[]]"
| "split_on c (x # xs) =
     (if x = c then [] # split_on c xs
      else (case split_on c xs of [] \<Rightarrow> [[x]] | w # ws \<Rightarrow> (x # w) # ws))"

fun py_join :: "string \<Rightarrow> string list \<Rightarrow> string" where
  "py_join sep [] = []"
| "py_join sep [x] = x"
| "py_join sep (x # y # xs) = x @ sep @ py_join sep (y # xs)"

fun universal_newlines :: "string \<Rightarrow> string" where
  "universal_newlines [] = []"
| "universal_newlines [c] = (if c = CHR 0x0D then [CHR 0x0A] else [c])"
| "universal_newlines (c # d # cs) =
     (if c = CHR 0x0D \<and> d = CHR 0x0A then CHR 0x0A # universal_newlines cs
      else if c = CHR 0x0D then CHR 0x0A # universal_newlines (d # cs)
      else c # universal_newlines (d # cs))"

fun lines_keepends :: "string \<Rightarrow> string list" where
  "lines_keepends [] = []"
| "lines_keepends (c # cs) =
     (if c = CHR 0x0A then [c] # lines_keepends cs
      else (case lines_keepends cs of [] \<Rightarrow> [[c]] | l # ls \<Rightarrow> (c # l) # ls))"

definition py_readlines :: "string \<Rightarrow> string list" where
  "py_readlines content = lines_keepends (universal_newlines content)"

type_synonym filesystem = "string \<Rightarrow> string option"

section \<open>The operation candidate\<close>

text \<open>
  \<^verbatim>\<open>FBNetBlock\<close> of \<^verbatim>\<open>get_blocks\<close>. Its \<^verbatim>\<open>op\<close> is a sequence of a 1x1 convolution, a
  rectifier, a depthwise convolution, a rectifier and a 1x1 convolution; the three
  convolutions are built from the argument records below, in this order.
\<close>

fun relu :: "tensor \<Rightarrow> tensor" where
  "relu (Sc r) = Sc (max 0 r)"
| "relu (Ten ts) = Ten (map relu ts)"

definition nn_ReLU :: module where
  "nn_ReLU = \<lparr>m_params = [], m_len = None, m_call = (\<lambda>st x. Inr (relu x))\<rparr>"

definition expand_args :: "int \<Rightarrow> int \<Rightarrow> int \<Rightarrow> bool \<Rightarrow> conv_args" where
  "expand_args C_in expansion group' bias_flag =
     \<lparr>cv_in = C_in, cv_out = C_in * expansion, cv_kernel = 1, cv_stride = 1, cv_padding = 0,
      cv_groups = group', cv_bias = bias_flag\<rparr>"

definition depthwise_args :: "int \<Rightarrow> int \<Rightarrow> int \<Rightarrow> bool \<Rightarrow> conv_args" where
  "depthwise_args C_in stride expansion bias_flag =
     \<lparr>cv_in = C_in * expansion, cv_out = C_in * expansion, cv_kernel = 3, cv_stride = stride,
      cv_padding = 1, cv_groups = C_in * expansion, cv_bias = bias_flag\<rparr>"

definition project_args :: "int \<Rightarrow> int \<Rightarrow> int \<Rightarrow> int \<Rightarrow> bool \<Rightarrow> conv_args" where
  "project_args C_in C_out expansion group' bias_flag =
     \<lparr>cv_in = C_in * expansion, cv_out = C_out, cv_kernel = 1, cv_stride = 1, cv_padding = 0,
      cv_groups = group', cv_bias = bias_flag\<rparr>"

record FBNetBlock =
  b_op :: "module list"
  b_res_flag :: bool
  b_trans :: "module option"

definition FBNetBlock_init ::
  "env \<Rightarrow> heap \<Rightarrow> int \<Rightarrow> int \<Rightarrow> int \<Rightarrow> int \<Rightarrow> int \<Rightarrow> int \<Rightarrow> bool \<Rightarrow> py_error + FBNetBlock \<times> heap" where
  "FBNetBlock_init ev h C_in C_out kernel_size stride expansion group' bn =
     (if bn then Inl AssertionError
      else
        let bias_flag = \<not> bn
        in bind_err (nn_Conv2d ev (expand_args C_in expansion group' bias_flag) h) (\<lambda>(conv1, h1).
           bind_err (nn_Conv2d ev (depthwise_args C_in stride expansion bias_flag) h1) (\<lambda>(conv2, h2).
           bind_err (nn_Conv2d ev (project_args C_in C_out expansion group' bias_flag) h2) (\<lambda>(conv3, h3).
           let op = [conv1, nn_ReLU, conv2, nn_ReLU, conv3];
               res_flag = (C_in = C_out \<and> stride = 1)
           in if \<not> res_flag then
                (if stride = 2 then
                   bind_err (nn_Conv2d ev \<lparr>cv_in = C_in, cv_out = C_out, cv_kernel = 3, cv_stride = 2,
                               cv_padding = 1, cv_groups = 1, cv_bias = True\<rparr> h3) (\<lambda>(trans', h4).
                     Inr (\<lparr>b_op = op, b_res_flag = res_flag, b_trans = Some trans'\<rparr>, h4))
                 else if stride = 1 then
                   bind_err (nn_Conv2d ev \<lparr>cv_in = C_in, cv_out = C_out, cv_kernel = 1, cv_stride = 1,
                               cv_padding = 0, cv_groups = 1, cv_bias = True\<rparr> h3) (\<lambda>(trans', h4).
                     Inr (\<lparr>b_op = op, b_res_flag = res_flag, b_trans = Some trans'\<rparr>, h4))
                 else Inl ValueError)
              else Inr (\<lparr>b_op = op, b_res_flag = res_flag, b_trans = None\<rparr>, h3)))))"

text \<open>Calling an \<^verbatim>\<open>nn.Sequential\<close> calls its modules in order.\<close>

fun sequential_call :: "module list \<Rightarrow> store \<Rightarrow> tensor \<Rightarrow> py_error + tensor" where
  "sequential_call [] st x = Inr x"
| "sequential_call (m # ms) st x = bind_err (m_call m st x) (sequential_call ms st)"

definition FBNetBlock_forward :: "store \<Rightarrow> FBNetBlock \<Rightarrow> tensor \<Rightarrow> py_error + tensor" where
  "FBNetBlock_forward st blk x =
     (if b_res_flag blk then bind_err (sequential_call (b_op blk) st x) (\<lambda>y. tadd y x)
      else bind_err (sequential_call (b_op blk) st x) (\<lambda>y.
             case b_trans blk of
               None \<Rightarrow> Inl AttributeError
             | Some trans' \<Rightarrow> bind_err (m_call trans' st x) (\<lambda>z. tadd y z)))"

text \<open>
  \<^verbatim>\<open>get_blocks\<close>: a stem convolution, then for each of the stages 1 to 7 as many layers as
  \<open>n_tab\<close> says, each a list of one candidate per entry of \<open>e_tab\<close>, then a head
  convolution; 24 entries are asserted. The tables are \<^verbatim>\<open>_f\<close>, \<^verbatim>\<open>_n\<close>, \<^verbatim>\<open>_s\<close>, \<^verbatim>\<open>_e\<close>, \<^verbatim>\<open>_kernel\<close>
  and \<^verbatim>\<open>_group\<close>; every subscript into them is in range. The first layer of a stage
  gets the stride of the table and every later layer of the stage the stride 1.
  \<open>c_out\<close> has no value before the first stage: the 16 it starts with here is never
  read. A candidate is used as a module: its parameters are those of its convolutions.
\<close>

definition FBNetBlock_module :: "FBNetBlock \<Rightarrow> module" where
  "FBNetBlock_module blk =
     \<lparr>m_params = concat (map m_params (b_op blk)) @
                 (case b_trans blk of None \<Rightarrow> [] | Some t \<Rightarrow> m_params t),
      m_len = None,
      m_call = (\<lambda>st x. FBNetBlock_forward st blk x)\<rparr>"

definition f_tab :: "int list" where
  "f_tab = [16, 16, 24, 32, 64, 112, 184, 352, 1984]"

definition n_tab :: "nat list" where
  "n_tab = [1, 1, 4, 4, 4, 4, 4, 1, 1]"

definition s_tab :: "int list" where
  "s_tab = [1, 1, 2, 2, 2, 1, 2, 1, 1]"

definition e_tab :: "int list" where
  "e_tab = [1, 1, 3, 6, 1, 1, 3, 6]"

definition kernel_tab :: "int list" where
  "kernel_tab = [3, 3, 3, 3, 5, 5, 5, 5]"

definition group_tab :: "int list" where
  "group_tab = [1, 2, 1, 1, 1, 2, 1, 1]"

definition candidate_step ::
  "env \<Rightarrow> int \<Rightarrow> int \<Rightarrow> int \<Rightarrow> module list \<times> heap \<Rightarrow> nat \<Rightarrow> py_error + module list \<times> heap" where
  "candidate_step ev c_in c_out stride s b_idx =
     (case s of (tmp_block, h) \<Rightarrow>
        let expansion = e_tab ! b_idx;
            kernel = kernel_tab ! b_idx;
            group' = group_tab ! b_idx
        in bind_err (FBNetBlock_init ev h c_in c_out kernel stride expansion group' False) (\<lambda>(blk, h').
             Inr (tmp_block @ [FBNetBlock_module blk], h')))"

definition layer_step ::
  "env \<Rightarrow> nat \<Rightarrow> block list \<times> int \<times> int \<times> int \<times> heap \<Rightarrow> nat \<Rightarrow>
   py_error + block list \<times> int \<times> int \<times> int \<times> heap" where
  "layer_step ev n_idx s i =
     (case s of (BLOCKS, c_in, c_out, stride, h) \<Rightarrow>
        let c_out = f_tab ! n_idx
        in bind_err (for_each (candidate_step ev c_in c_out stride) ([], h) [0..<length e_tab])
             (\<lambda>(tmp_block, h'). Inr (BLOCKS @ [PyList tmp_block], c_out, c_out, 1, h')))"

definition stage_step ::
  "env \<Rightarrow> block list \<times> int \<times> int \<times> heap \<Rightarrow> nat \<Rightarrow> py_error + block list \<times> int \<times> int \<times> heap" where
  "stage_step ev s n_idx =
     (case s of (BLOCKS, c_in, c_out, h) \<Rightarrow>
        let c_out = f_tab ! n_idx;
            stride = s_tab ! n_idx
        in bind_err (for_each (layer_step ev n_idx) (BLOCKS, c_in, c_out, stride, h) [0..<n_tab ! n_idx])
             (\<lambda>(BLOCKS, c_in, c_out, stride, h'). Inr (BLOCKS, c_in, c_out, h')))"

definition get_blocks :: "env \<Rightarrow> heap \<Rightarrow> py_error + block list \<times> heap" where
  "get_blocks ev h =
     bind_err (nn_Conv2d ev \<lparr>cv_in = 3, cv_out = 16, cv_kernel = 3, cv_stride = 2, cv_padding = 1,
                 cv_groups = 1, cv_bias = True\<rparr> h) (\<lambda>(stem, h0).
     bind_err (for_each (stage_step ev) ([Module stem], 16, 16, h0) [1..<8]) (\<lambda>(BLOCKS, c_in, c_out, h1).
     bind_err (nn_Conv2d ev \<lparr>cv_in = c_out, cv_out = 1984, cv_kernel = 1, cv_stride = 1, cv_padding = 0,
                 cv_groups = 1, cv_bias = True\<rparr> h1) (\<lambda>(head, h2).
     let BLOCKS = BLOCKS @ [Module head]
     in if length BLOCKS \<noteq> 24 then Inl AssertionError else Inr (BLOCKS, h2))))"

section \<open>The Searchable Network\<close>

record Linear =
  l_weight :: ref
  l_bias :: ref

text \<open>What a forward call leaves in \<^verbatim>\<open>self.ce\<close>, \<^verbatim>\<open>self.lat_loss\<close>, \<^verbatim>\<open>self.loss\<close>, \<^verbatim>\<open>self.acc\<close> and
  \<^verbatim>\<open>self.batch_size\<close>; the attributes do not exist before the first call.\<close>

record outputs =
  o_ce :: real
  o_lat_loss :: real
  o_loss :: real
  o_acc :: real
  o_batch_size :: nat

text \<open>The fields are \<^verbatim>\<open>_alpha\<close>, \<^verbatim>\<open>_beta\<close>, \<^verbatim>\<open>theta\<close>, \<^verbatim>\<open>_ops\<close>, \<^verbatim>\<open>_blocks\<close>, \<^verbatim>\<open>_speed\<close> and
  \<^verbatim>\<open>classifier\<close> of the source.\<close>

record FBNet =
  net_alpha :: real
  net_beta :: real
  net_theta :: "ref list"
  net_ops :: "MixedOp list"
  net_blocks :: "block list"
  net_speed :: "string list"
  net_classifier :: Linear
  net_out :: "outputs option"

text \<open>
  The loop of \<^verbatim>\<open>FBNet.__init__\<close>: for each entry that is a list, a new tensor of ones of
  that length filled with \<open>init_theta\<close>, and a Mixed Operation over the list. The
  constructor then asserts 22 theta vectors, reads the lines of the latency file and
  creates the classifier; creating the criterion and moving it to the device is left out.
\<close>

fun init_loop :: "real \<Rightarrow> heap \<Rightarrow> ref list \<Rightarrow> MixedOp list \<Rightarrow> block list \<Rightarrow> ref list \<times> MixedOp list \<times> heap" where
  "init_loop init_theta h th ops [] = (th, ops, h)"
| "init_loop init_theta h th ops (Module m # bs) = init_loop init_theta h th ops bs"
| "init_loop init_theta h th ops (PyList b # bs) =
     (let num_block = length b;
          (theta, h') = alloc h (Ten (replicate num_block (Sc init_theta)))
      in init_loop init_theta h' (th @ [theta]) (ops @ [MixedOp_init b]) bs)"

definition FBNet_init ::
  "env \<Rightarrow> filesystem \<Rightarrow> heap \<Rightarrow> nat \<Rightarrow> block list \<Rightarrow> real \<Rightarrow> string \<Rightarrow> real \<Rightarrow> real \<Rightarrow> py_error + FBNet \<times> heap" where
  "FBNet_init ev fs h num_classes blocks init_theta speed_f alpha beta =
     (case init_loop init_theta h [] [] blocks of (th, ops, h1) \<Rightarrow>
        if length th \<noteq> 22 then Inl AssertionError
        else (case fs speed_f of
                None \<Rightarrow> Inl OSError
              | Some content \<Rightarrow>
                  (let (wt, bs) = linear_init ev 1984 num_classes;
                       (rw, h2) = alloc h1 wt;
                       (rb, h3) = alloc h2 bs
                   in Inr (\<lparr>net_alpha = alpha, net_beta = beta, net_theta = th, net_ops = ops,
                            net_blocks = blocks, net_speed = py_readlines content,
                            net_classifier = \<lparr>l_weight = rw, l_bias = rb\<rparr>,
                            net_out = None\<rparr>, h3))))"

text \<open>
  \<^verbatim>\<open>len(block)\<close> and \<^verbatim>\<open>block(data)\<close>: a list has a length and cannot be called; a module can
  be called and has a length only when it is a container.
\<close>

definition block_len :: "block \<Rightarrow> py_error + nat" where
  "block_len b = (case b of PyList cs \<Rightarrow> Inr (length cs)
                  | Module m \<Rightarrow> (case m_len m of None \<Rightarrow> Inl TypeError | Some n \<Rightarrow> Inr n))"

definition block_call :: "store \<Rightarrow> block \<Rightarrow> tensor \<Rightarrow> py_error + tensor" where
  "block_call st b x = (case b of PyList cs \<Rightarrow> Inl TypeError | Module m \<Rightarrow> m_call m st x)"

text \<open>\<^verbatim>\<open>t.repeat(n, 1)\<close> on a tensor of one dimension, and \<^verbatim>\<open>t.sum()\<close>.\<close>

definition repeat_rows :: "nat \<Rightarrow> tensor \<Rightarrow> tensor" where
  "repeat_rows n t = Ten (replicate n t)"

fun tsum :: "tensor \<Rightarrow> real" where
  "tsum (Sc r) = r"
| "tsum (Ten ts) = sum_list (map tsum ts)"

text \<open>\<^verbatim>\<open>[float(tmp) for tmp in row.strip().split(' ')]\<close>.\<close>

fun parse_floats :: "env \<Rightarrow> string list \<Rightarrow> py_error + real list" where
  "parse_floats ev [] = Inr []"
| "parse_floats ev (w # ws) =
     (case py_float ev w of None \<Rightarrow> Inl ValueError
      | Some r \<Rightarrow> bind_err (parse_floats ev ws) (\<lambda>rs. Inr (r # rs)))"

definition speed_row :: "env \<Rightarrow> string \<Rightarrow> py_error + real list" where
  "speed_row ev row = parse_floats ev (split_on CHR '' '' (strip row))"

text \<open>
  The state of the loop of \<^verbatim>\<open>FBNet.forward\<close> is \<open>(theta_idx, lat, data)\<close>. The branch for
  \<^verbatim>\<open>len(block) > 1\<close> reads \<^verbatim>\<open>self.theta[theta_idx]\<close>, adds one to \<open>theta_idx\<close>, and only
  then reads \<^verbatim>\<open>self._speed[theta_idx]\<close> and \<^verbatim>\<open>self._ops[theta_idx]\<close>.
\<close>

type_synonym loop_state = "nat \<times> tensor list \<times> tensor"

definition searchable_step ::
  "env \<Rightarrow> store \<Rightarrow> FBNet \<Rightarrow> nat \<Rightarrow> real \<Rightarrow> loop_state \<Rightarrow> py_error + loop_state" where
  "searchable_step ev st net batch_size temperature s =
     (case s of (theta_idx, lat, data) \<Rightarrow>
        bind_err (py_nth (net_theta net) theta_idx) (\<lambda>theta.
        let theta_idx' = theta_idx + 1;
            t = repeat_rows batch_size (st theta);
            weight = gumbel_softmax ev t temperature
        in bind_err (py_nth (net_speed net) theta_idx') (\<lambda>row.
           bind_err (speed_row ev row) (\<lambda>speed.
           bind_err (tmul weight (Sc (tsum (repeat_rows batch_size (Ten (map Sc speed)))))) (\<lambda>lat'.
           bind_err (py_nth (net_ops net) theta_idx') (\<lambda>mo.
           bind_err (MixedOp_forward st mo data weight) (\<lambda>data'.
           Inr (theta_idx', lat @ [lat'], data'))))))))"

definition block_step ::
  "env \<Rightarrow> store \<Rightarrow> FBNet \<Rightarrow> nat \<Rightarrow> real \<Rightarrow> block \<Rightarrow> loop_state \<Rightarrow> py_error + loop_state" where
  "block_step ev st net batch_size temperature b s =
     bind_err (block_len b) (\<lambda>n.
       if 1 < n then searchable_step ev st net batch_size temperature s
       else (case s of (theta_idx, lat, data) \<Rightarrow>
               bind_err (block_call st b data) (\<lambda>data'. Inr (theta_idx, lat, data'))))"

fun forward_loop ::
  "env \<Rightarrow> store \<Rightarrow> FBNet \<Rightarrow> nat \<Rightarrow> real \<Rightarrow> block list \<Rightarrow> loop_state \<Rightarrow> py_error + loop_state" where
  "forward_loop ev st net batch_size temperature [] s = Inr s"
| "forward_loop ev st net batch_size temperature (b # bs) s =
     bind_err (block_step ev st net batch_size temperature b s)
       (forward_loop ev st net batch_size temperature bs)"

text \<open>
  \<^verbatim>\<open>FBNet.forward\<close>. \<^verbatim>\<open>input.size()[0]\<close> fails on a tensor with no dimension and
  \<^verbatim>\<open>self._blocks[0]\<close> on an empty sequence; the loop runs over the entries from index 1
  on. The call returns the loss and leaves the outputs in the network.
\<close>

definition forward_tail ::
  "env \<Rightarrow> store \<Rightarrow> FBNet \<Rightarrow> nat \<Rightarrow> tensor \<Rightarrow> loop_state \<Rightarrow> py_error + FBNet \<times> real" where
  "forward_tail ev st net batch_size target s =
     (case s of (theta_idx, lat, data) \<Rightarrow>
        bind_err (torch_tensor ev lat) (\<lambda>lat_t.
        bind_err (nn_avg_pool2d ev data) (\<lambda>pooled.
        bind_err (linear ev (st (l_weight (net_classifier net))) (st (l_bias (net_classifier net))) pooled) (\<lambda>logits.
        bind_err (cross_entropy ev logits target) (\<lambda>c.
        let ce = tsum c;
            lat_loss = tsum lat_t;
            loss = ce + net_alpha net * torch_pow ev lat_loss (net_beta net)
        in bind_err (accuracy ev logits target batch_size) (\<lambda>acc.
           Inr (net\<lparr>net_out := Some \<lparr>o_ce = ce, o_lat_loss = lat_loss, o_loss = loss,
                                      o_acc = acc, o_batch_size = batch_size\<rparr>\<rparr>, loss)))))))"

definition FBNet_forward ::
  "env \<Rightarrow> store \<Rightarrow> FBNet \<Rightarrow> tensor \<Rightarrow> tensor \<Rightarrow> real \<Rightarrow> py_error + FBNet \<times> real" where
  "FBNet_forward ev st net input target temperature =
     bind_err (py_nth (dims input) 0) (\<lambda>batch_size.
     bind_err (py_nth (net_blocks net) 0) (\<lambda>b0.
     bind_err (block_call st b0 input) (\<lambda>data.
     bind_err (forward_loop ev st net batch_size temperature (tl (net_blocks net)) (0, [], data))
       (forward_tail ev st net batch_size target))))"

section \<open>The Optimization Driver\<close>

text \<open>
  Modelled from the spec: the metric accumulator \<^verbatim>\<open>AvgrageMeter\<close> of \<^verbatim>\<open>utils\<close>, which is not
  among the sources. It is a running average with a value, a sum and a count, and after
  values \<open>v\<close> with counts \<open>n\<close> its mean is the sum of the \<open>v * n\<close> over the sum of the \<open>n\<close>.
\<close>

record meter =
  mt_avg :: real
  mt_sum :: real
  mt_cnt :: nat

definition meter_init :: meter where
  "meter_init = \<lparr>mt_avg = 0, mt_sum = 0, mt_cnt = 0\<rparr>"


text \<open>
  \<^verbatim>\<open>network.parameters()\<close> yields the parameters of the modules that are attributes of
  the network. \<^verbatim>\<open>_blocks\<close> and \<^verbatim>\<open>_ops\<close> are plain Python lists and \<^verbatim>\<open>theta\<close> is a plain
  list of tensors, so none of their tensors is among them; the criterion has no
  parameter; what remains is the classifier's weight and bias.
\<close>

definition FBNet_parameters :: "FBNet \<Rightarrow> ref list" where
  "FBNet_parameters net = [l_weight (net_classifier net), l_bias (net_classifier net)]"

text \<open>
  \<^verbatim>\<open>v in xs\<close> on a list of tensors: an element that is the same object as \<open>v\<close> is found
  at once, any other is compared with \<^verbatim>\<open>==\<close> and the result is read as a truth value.
\<close>

fun py_in :: "env \<Rightarrow> store \<Rightarrow> ref \<Rightarrow> ref list \<Rightarrow> py_error + bool" where
  "py_in ev st v [] = Inr False"
| "py_in ev st v (x # xs) =
     (if x = v then Inr True
      else bind_err (tensor_eq_bool ev (st x) (st v)) (\<lambda>b.
             if b then Inr True else py_in ev st v xs))"

fun mod_params_loop :: "env \<Rightarrow> store \<Rightarrow> ref list \<Rightarrow> ref list \<Rightarrow> ref list \<Rightarrow> py_error + ref list" where
  "mod_params_loop ev st theta_params mod_params [] = Inr mod_params"
| "mod_params_loop ev st theta_params mod_params (v # vs) =
     bind_err (py_in ev st v theta_params) (\<lambda>b.
       mod_params_loop ev st theta_params (if \<not> b then mod_params @ [v] else mod_params) vs)"

text \<open>
  The trainer's fields are \<^verbatim>\<open>_mod\<close>, \<^verbatim>\<open>theta\<close>, \<^verbatim>\<open>w\<close>, \<^verbatim>\<open>_tem_decay\<close>, \<^verbatim>\<open>temp\<close>, the three
  meters, and the parameter lists the two optimizers were built over; \<open>tr_logged\<close> is
  what went to the logger, as the epoch and step of each report.
\<close>

record Trainer =
  tr_mod :: FBNet
  tr_theta :: "ref list"
  tr_w :: "ref list"
  tr_tem_decay :: real
  tr_temp :: real
  tr_acc_avg :: meter
  tr_ce_avg :: meter
  tr_lat_avg :: meter
  tr_w_opt :: "ref list"
  tr_t_opt :: "ref list"
  tr_logged :: "(int \<times> nat) list"

definition Trainer_init ::
  "env \<Rightarrow> store \<Rightarrow> FBNet \<Rightarrow> real \<Rightarrow> real \<Rightarrow> real \<Rightarrow> real \<Rightarrow> real \<Rightarrow> real \<Rightarrow> real \<Rightarrow> py_error + Trainer" where
  "Trainer_init ev st network w_lr w_mom w_wd t_lr t_wd init_temperature temperature_decay =
     (let theta_params = net_theta network
      in bind_err (mod_params_loop ev st theta_params [] (FBNet_parameters network)) (\<lambda>mod_params.
           case sgd_check ev mod_params w_lr w_mom w_wd of
             Some e \<Rightarrow> Inl e
           | None \<Rightarrow>
               (case adam_check ev theta_params t_lr t_wd of
                  Some e \<Rightarrow> Inl e
                | None \<Rightarrow>
                    Inr \<lparr>tr_mod = network, tr_theta = theta_params, tr_w = mod_params,
                         tr_tem_decay = temperature_decay, tr_temp = init_temperature,
                         tr_acc_avg = meter_init, tr_ce_avg = meter_init, tr_lat_avg = meter_init,
                         tr_w_opt = mod_params, tr_t_opt = theta_params, tr_logged = []\<rparr>)))"

text \<open>
  A step of an optimizer writes a new value into each of its parameters and into no
  other tensor. Clearing and computing gradients change no tensor's value.
\<close>

definition opt_step :: "(ref \<Rightarrow> tensor) \<Rightarrow> ref list \<Rightarrow> store \<Rightarrow> store" where
  "opt_step new params st = (\<lambda>r. if r \<in> set params then new r else st r)"

definition train_w ::
  "env \<Rightarrow> Trainer \<times> store \<Rightarrow> tensor \<Rightarrow> tensor \<Rightarrow> bool \<Rightarrow> py_error + Trainer \<times> store" where
  "train_w ev s input target decay_temperature =
     (case s of (tr, st) \<Rightarrow>
        bind_err (FBNet_forward ev st (tr_mod tr) input target (tr_temp tr)) (\<lambda>(net', loss).
          let st' = opt_step (w_update ev st input target (tr_temp tr)) (tr_w_opt tr) st;
              tr' = tr\<lparr>tr_mod := net'\<rparr>
          in Inr (if decay_temperature then tr'\<lparr>tr_temp := tr_temp tr' * tr_tem_decay tr'\<rparr> else tr',
                  st')))"

definition train_t ::
  "env \<Rightarrow> Trainer \<times> store \<Rightarrow> tensor \<Rightarrow> tensor \<Rightarrow> bool \<Rightarrow> py_error + Trainer \<times> store" where
  "train_t ev s input target decay_temperature =
     (case s of (tr, st) \<Rightarrow>
        bind_err (FBNet_forward ev st (tr_mod tr) input target (tr_temp tr)) (\<lambda>(net', loss).
          let st' = opt_step (t_update ev st input target (tr_temp tr)) (tr_t_opt tr) st;
              tr' = tr\<lparr>tr_mod := net'\<rparr>
          in Inr (if decay_temperature then tr'\<lparr>tr_temp := tr_temp tr' * tr_tem_decay tr'\<rparr> else tr',
                  st')))"


text \<open>
  \<^verbatim>\<open>Trainer.search\<close>. A batch stream is the list of its batches, the same on every
  pass; \<^verbatim>\<open>range(n)\<close> is empty for \<open>n \<le> 0\<close>.
\<close>

type_synonym batch = "tensor \<times> tensor"




text \<open>
  \<^verbatim>\<open>Trainer.save_theta\<close>: each theta vector becomes the text of its elements joined by
  one space, followed by the two characters \<^verbatim>\<open>/n\<close>; what was written is the file's
  content when the \<^verbatim>\<open>with\<close> block ends. The result is the list of the vectors' elements.
  Opening the file for writing is taken to succeed; the argument \<^verbatim>\<open>epoch\<close> is not used.
\<close>

fun save_theta_loop :: "env \<Rightarrow> store \<Rightarrow> ref list \<Rightarrow> tensor list list \<Rightarrow> string \<Rightarrow> py_error + tensor list list \<times> string" where
  "save_theta_loop ev st [] res f = Inr (res, f)"
| "save_theta_loop ev st (t # ts) res f =
     bind_err (iter_tensor (st t)) (\<lambda>t_list.
       let s = py_join '' '' (map (py_str ev) t_list)
       in save_theta_loop ev st ts (res @ [t_list]) (f @ (s @ ''/n'')))"

definition save_theta ::
  "env \<Rightarrow> Trainer \<Rightarrow> store \<Rightarrow> filesystem \<Rightarrow> string \<Rightarrow> py_error + tensor list list \<times> filesystem" where
  "save_theta ev tr st fs save_path =
     bind_err (save_theta_loop ev st (tr_theta tr) [] []) (\<lambda>(res, f).
       Inr (res, fs(save_path \<mapsto> f)))"

section \<open>Notions used in the statements\<close>

text \<open>The shape that \<open>dims\<close> reports for a full tensor of shape \<open>s\<close>: it stops at an empty dimension.\<close>

fun trunc :: "nat list \<Rightarrow> nat list" where
  "trunc [] = []"
| "trunc (n # s) = n # (if n = 0 then [] else trunc s)"

text \<open>The entries of a block sequence that are lists, in order: the searchable positions.\<close>

fun list_entries :: "block list \<Rightarrow> module list list" where
  "list_entries [] = []"
| "list_entries (Module m # bs) = list_entries bs"
| "list_entries (PyList b # bs) = b # list_entries bs"

text \<open>The parameters of the modules of an entry of the block sequence.\<close>

fun block_params :: "block \<Rightarrow> ref list" where
  "block_params (Module m) = m_params m"
| "block_params (PyList cs) = concat (map m_params cs)"

text \<open>
  The calls that the claim about \<^verbatim>\<open>search\<close> describes, each with its kind, the epoch and
  step it reports, and its batch: \<open>start_w_epoch\<close> passes over the weight stream, then
  \<open>total_epoch\<close> times a pass over the theta stream followed by a pass over the weight
  stream. A weight call is \<^verbatim>\<open>train_w\<close> without decay, a theta call is \<^verbatim>\<open>train_t\<close> with decay.
\<close>

datatype update = WeightStep | ThetaStep

type_synonym call = "update \<times> int \<times> nat \<times> batch"


definition pass_calls :: "update \<Rightarrow> int \<Rightarrow> batch list \<Rightarrow> call list" where
  "pass_calls kind epoch ds = map (\<lambda>(step, b). (kind, epoch, step, b)) (enumerate 0 ds)"

definition schedule :: "batch list \<Rightarrow> batch list \<Rightarrow> int \<Rightarrow> int \<Rightarrow> call list" where
  "schedule train_w_ds train_t_ds total_epoch start_w_epoch =
     concat (map (\<lambda>epoch. pass_calls WeightStep (int epoch) train_w_ds) [0..<nat start_w_epoch]) @
     concat (map (\<lambda>epoch. pass_calls ThetaStep (int epoch + start_w_epoch) train_t_ds @
                          pass_calls WeightStep (int epoch + start_w_epoch) train_w_ds)
               [0..<nat total_epoch])"

text \<open>A text without a line feed or a carriage return.\<close>

definition no_line_break :: "string \<Rightarrow> bool" where
  "no_line_break s = (CHR 0x0A \<notin> set s \<and> CHR 0x0D \<notin> set s)"

section \<open>Concrete inputs\<close>

text \<open>Small inputs on which the theorems below are run.\<close>

definition example_store :: store where
  "example_store = (\<lambda>r. Sc 0)"

definition example_ident :: module where
  "example_ident = \<lparr>m_params = [], m_len = None, m_call = (\<lambda>st x. Inr x)\<rparr>"

definition example_double :: module where
  "example_double = \<lparr>m_params = [], m_len = None, m_call = (\<lambda>st x. Inr (bop (*) (Sc 2) x))\<rparr>"

definition example_mixed :: MixedOp where
  "example_mixed = MixedOp_init [example_ident, example_double]"

text \<open>
  A network of 22 searchable positions with two candidates each, between a stem and a
  head, with a latency table of 23 rows; \<open>example_net\<close> is what the constructor builds from
  it and \<open>example_params\<close> the store it leaves.
\<close>

definition example_env :: env where
  "example_env = \<lparr>
     py_float = (\<lambda>s. if s = ''1'' then Some 1 else if s = ''2'' then Some 2 else None),
     py_str = (\<lambda>t. ''1.0''),
     gumbel_softmax = (\<lambda>t temperature. t),
     torch_tensor = (\<lambda>ts. Inr (Ten ts)),
     nn_avg_pool2d = (\<lambda>t. Inr t),
     linear = (\<lambda>w b x. Inr x),
     cross_entropy = (\<lambda>logits target. Inr (Sc 1)),
     torch_pow = (\<lambda>x y. x),
     accuracy = (\<lambda>logits target n. Inr 1),
     linear_init = (\<lambda>n_in n_out. (Ten [], Ten [])),
     nn_Conv2d = (\<lambda>a h. let (w, h1) = alloc h (Ten []); (b, h2) = alloc h1 (Ten [])
                        in Inr (\<lparr>m_params = [w, b], m_len = None, m_call = (\<lambda>st x. Inr x)\<rparr>, h2)),
     tensor_eq_bool = (\<lambda>a b. Inr False),
     sgd_check = (\<lambda>ps lr mom wd. None),
     adam_check = (\<lambda>ps lr wd. None),
     w_update = (\<lambda>st x y temperature r. bop (+) (st r) (Sc 1)),
     t_update = (\<lambda>st x y temperature r. bop (+) (st r) (Sc 1))\<rparr>"

definition example_stem :: module where
  "example_stem = \<lparr>m_params = [0, 1], m_len = None, m_call = (\<lambda>st x. Inr x)\<rparr>"

definition example_cands :: "module list" where
  "example_cands = [example_ident, example_double]"

definition example_blocks :: "block list" where
  "example_blocks =
     Module example_stem # replicate 21 (PyList example_cands) @ PyList example_cands # [Module example_ident]"

definition example_line :: string where
  "example_line = ''1 2'' @ [CHR 0x0A]"

definition example_fs :: filesystem where
  "example_fs = (\<lambda>p. if p = ''./speed.txt'' then Some (concat (replicate 23 example_line)) else None)"

definition example_heap :: heap where
  "example_heap = \<lparr>h_val = (\<lambda>r. Sc 0), h_next = 2\<rparr>"

definition example_net :: FBNet where
  "example_net = \<lparr>net_alpha = 0.2, net_beta = 0.6, net_theta = [2..<24],
     net_ops = replicate 22 (MixedOp_init example_cands), net_blocks = example_blocks,
     net_speed = replicate 23 example_line,
     net_classifier = \<lparr>l_weight = 24, l_bias = 25\<rparr>, net_out = None\<rparr>"

definition example_params :: store where
  "example_params = (\<lambda>r. if 2 \<le> r \<and> r < 24 then Ten [Sc 1, Sc 1] else if r = 24 \<or> r = 25 then Ten [] else Sc 0)"

text \<open>
  The trainer that \<^verbatim>\<open>Trainer\<close> builds over \<open>example_net\<close>. For runs that return there is
  \<open>example_small_net\<close>, a network without searchable positions: the constructor builds
  none, so this is a network object whose fields were set by hand; with its trainer and
  a batch of two.
\<close>

definition example_trainer :: Trainer where
  "example_trainer = \<lparr>tr_mod = example_net, tr_theta = [2..<24], tr_w = [24, 25],
     tr_tem_decay = 0.965, tr_temp = 5, tr_acc_avg = meter_init, tr_ce_avg = meter_init,
     tr_lat_avg = meter_init, tr_w_opt = [24, 25], tr_t_opt = [2..<24], tr_logged = []\<rparr>"




text \<open>
  Two more networks of the constructor, each with the store it leaves: \<open>example_net_one\<close>
  is built from \<open>example_blocks_one\<close>, whose last list holds a single candidate, and
  \<open>example_net_bad\<close> from the blocks of \<open>example_net\<close> and a latency file whose line 22
  is not a number.
\<close>

definition example_blocks_one :: "block list" where
  "example_blocks_one =
     Module example_stem # replicate 21 (PyList example_cands) @ PyList [example_ident] # [Module example_ident]"

definition example_net_one :: FBNet where
  "example_net_one = example_net\<lparr>
     net_ops := replicate 21 (MixedOp_init example_cands) @ [MixedOp_init [example_ident]],
     net_blocks := example_blocks_one\<rparr>"

definition example_params_one :: store where
  "example_params_one = example_params(23 := Ten [Sc 1])"

definition example_fs_bad :: filesystem where
  "example_fs_bad =
     (\<lambda>p. if p = ''./speed.txt'' then Some (concat (replicate 22 example_line) @ ''x'') else None)"

definition example_net_bad :: FBNet where
  "example_net_bad = example_net\<lparr>net_speed := replicate 22 example_line @ [''x'']\<rparr>"

section \<open>Basic facts\<close>

lemma bind_err_simps [simp]:
  "bind_err (Inl e) k = Inl e"
  "bind_err (Inr v) k = k v"
  by (simp_all add: bind_err_def)

lemma bind_err_Inr_iff: "bind_err m k = Inr r \<longleftrightarrow> (\<exists>v. m = Inr v \<and> k v = Inr r)"
  by (cases m) auto

lemma bind_err_Inl_iff: "bind_err m k = Inl e \<longleftrightarrow> m = Inl e \<or> (\<exists>v. m = Inr v \<and> k v = Inl e)"
  by (cases m) auto

lemma py_nth_Inr_iff: "py_nth xs i = Inr x \<longleftrightarrow> i < length xs \<and> x = xs ! i"
  by (auto simp: py_nth_def)

lemma MixedOp_init_ops [simp]: "mo_ops (MixedOp_init blocks) = blocks"
proof -
  have "foldl (\<lambda>ops op. ops @ [op]) acc blocks = acc @ blocks" for acc :: "module list"
    by (induction blocks arbitrary: acc) auto
  then show ?thesis by (simp add: MixedOp_init_def)
qed

lemma has_shape_dims: "has_shape s t \<Longrightarrow> dims t = trunc s"
proof (induction s t rule: has_shape.induct)
  case (2 n s ts)
  then show ?case by (cases ts) (auto simp: list_all_iff)
qed auto

lemma compat_rev_refl: "compat_rev xs xs"
  by (induction xs) auto

lemma broadcastable_same: "has_shape s a \<Longrightarrow> has_shape s b \<Longrightarrow> broadcastable a b"
  by (simp add: broadcastable_def has_shape_dims compat_rev_refl)

lemma broadcastable_Sc [simp]: "broadcastable (Sc c) t"
  by (simp add: broadcastable_def)

lemma bop_same_shape:
  "has_shape s a \<Longrightarrow> has_shape s b \<Longrightarrow> has_shape s (bop f a b)"
proof (induction s arbitrary: a b)
  case Nil
  then show ?case by (cases a; cases b) auto
next
  case (Cons n s)
  from Cons.prems obtain xs ys where ab: "a = Ten xs" "b = Ten ys"
    by (cases a; cases b) auto
  with Cons.prems have len: "length xs = n" "length ys = n"
    and sh: "list_all (has_shape s) xs" "list_all (has_shape s) ys" by auto
  have "length (dims a) = length (dims b)"
    using Cons.prems by (simp add: has_shape_dims)
  moreover have "list_all (has_shape s) (map (\<lambda>(x, y). bop f x y) (zip xs ys))"
    using sh Cons.IH by (auto simp: list_all_iff) (meson set_zip_leftD set_zip_rightD)
  ultimately show ?case using ab len by simp
qed

lemma bop_same_entry:
  "has_shape s a \<Longrightarrow> has_shape s b \<Longrightarrow> valid_index s idx \<Longrightarrow>
   entry (bop f a b) idx = f (entry a idx) (entry b idx)"
proof (induction s arbitrary: a b idx)
  case Nil
  then show ?case by (cases a; cases b) auto
next
  case (Cons n s)
  from Cons.prems obtain xs ys where ab: "a = Ten xs" "b = Ten ys"
    by (cases a; cases b) auto
  with Cons.prems have len: "length xs = n" "length ys = n"
    and sh: "list_all (has_shape s) xs" "list_all (has_shape s) ys" by auto
  from Cons.prems obtain i idx' where idx: "idx = i # idx'" "i < n" "valid_index s idx'"
    by (cases idx) auto
  have rk: "length (dims a) = length (dims b)"
    using Cons.prems by (simp add: has_shape_dims)
  have "has_shape s (xs ! i)" "has_shape s (ys ! i)"
    using sh len idx by (auto simp: list_all_length)
  then have "entry (bop f (xs ! i) (ys ! i)) idx' = f (entry (xs ! i) idx') (entry (ys ! i) idx')"
    using Cons.IH idx by blast
  then show ?case using ab len idx rk by simp
qed

lemma bop_Sc_shape: "has_shape s y \<Longrightarrow> has_shape s (bop f (Sc c) y)"
proof (induction s arbitrary: y)
  case Nil
  then show ?case by (cases y) auto
next
  case (Cons n s)
  then show ?case by (cases y) (auto simp: list_all_iff)
qed

lemma bop_Sc_entry:
  "has_shape s y \<Longrightarrow> valid_index s idx \<Longrightarrow> entry (bop f (Sc c) y) idx = f c (entry y idx)"
proof (induction s arbitrary: y idx)
  case Nil
  then show ?case by (cases y) auto
next
  case (Cons n s)
  then show ?case by (cases y; cases idx) (auto simp: list_all_length)
qed

lemma bop_add_zero: "bop (+) (Sc 0) y = y"
  by (induction y) (auto simp: map_idI)

lemma tensor_ext:
  "has_shape s a \<Longrightarrow> has_shape s b \<Longrightarrow>
   (\<And>idx. valid_index s idx \<Longrightarrow> entry a idx = entry b idx) \<Longrightarrow> a = b"
proof (induction s arbitrary: a b)
  case Nil
  from Nil.prems(1,2) obtain x y where "a = Sc x" "b = Sc y" by (cases a; cases b) auto
  with Nil.prems(3) [of "[]"] show ?case by simp
next
  case (Cons n s)
  from Cons.prems(1,2) obtain xs ys where ab: "a = Ten xs" "b = Ten ys"
    by (cases a; cases b) auto
  with Cons.prems have len: "length xs = n" "length ys = n"
    and sh: "list_all (has_shape s) xs" "list_all (has_shape s) ys" by auto
  have "xs ! i = ys ! i" if "i < n" for i
  proof (rule Cons.IH)
    show "has_shape s (xs ! i)" "has_shape s (ys ! i)"
      using sh len that by (auto simp: list_all_length)
    fix idx assume "valid_index s idx"
    with Cons.prems(3) [of "i # idx"] that ab len
    show "entry (xs ! i) idx = entry (ys ! i) idx" by simp
  qed
  with len ab show ?case by (simp add: nth_equalityI)
qed

section \<open>The Mixed Operation\<close>

lemma tmul_Sc: "tmul (Sc c) y = Inr (bop (*) (Sc c) y)"
  by (simp add: tmul_def)

lemma tadd_zero: "tadd (Sc 0) v = Inr v"
  by (simp add: tadd_def bop_add_zero)

lemma tadd_same: "has_shape s a \<Longrightarrow> has_shape s b \<Longrightarrow> tadd a b = Inr (bop (+) a b)"
  by (simp add: tadd_def broadcastable_same)

lemma mixed_sum_scalars:
  assumes "list_all2 (\<lambda>op y. m_call op st x = Inr y \<and> has_shape s y) ops ys"
    and "length ws = length ops"
    and "has_shape s acc"
  shows "\<exists>r. mixed_sum st x acc (zip (map Sc ws) ops) = Inr r \<and> has_shape s r \<and>
           (\<forall>idx. valid_index s idx \<longrightarrow>
              entry r idx = entry acc idx + sum_list (map2 (\<lambda>w y. w * entry y idx) ws ys))"
  using assms
proof (induction ops ys arbitrary: ws acc rule: list_all2_induct)
  case Nil
  then show ?case by simp
next
  case (Cons op ops y ys)
  from Cons.prems obtain w ws' where ws: "ws = w # ws'" "length ws' = length ops"
    by (cases ws) auto
  let ?v = "bop (*) (Sc w) y"
  let ?acc = "bop (+) acc ?v"
  have v: "has_shape s ?v" using Cons.hyps by (simp add: bop_Sc_shape)
  have acc': "has_shape s ?acc" using v Cons.prems by (simp add: bop_same_shape)
  from Cons.IH [OF ws(2) acc'] obtain r where
    r: "mixed_sum st x ?acc (zip (map Sc ws') ops) = Inr r" "has_shape s r"
       "\<And>idx. valid_index s idx \<Longrightarrow>
          entry r idx = entry ?acc idx + sum_list (map2 (\<lambda>w y. w * entry y idx) ws' ys)"
    by blast
  have step: "mixed_sum st x acc (zip (map Sc ws) (op # ops)) = Inr r"
    using Cons.hyps Cons.prems v r(1) by (simp add: ws tmul_Sc tadd_same)
  have "entry r idx = entry acc idx + sum_list (map2 (\<lambda>w y. w * entry y idx) ws (y # ys))"
    if "valid_index s idx" for idx
    using r(3) [OF that] that Cons.hyps Cons.prems v
    by (simp add: ws bop_same_entry [where s = s] bop_Sc_entry [where s = s])
  with step r(2) show ?case by blast
qed

lemma sum_list_map2_nth:
  "length xs = length ys \<Longrightarrow>
   sum_list (map2 f xs ys) = (\<Sum>i<length xs. f (xs ! i) (ys ! i) :: real)"
  by (simp add: sum_list_sum_nth atLeast0LessThan)

lemma MixedOp_weighted:
  assumes len: "length ws = length (mo_ops m)"
    and ne: "mo_ops m \<noteq> []"
    and cands: "list_all2 (\<lambda>op y. m_call op st x = Inr y \<and> has_shape s y) (mo_ops m) ys"
  shows "\<exists>r. MixedOp_forward st m x (Ten (map Sc ws)) = Inr r \<and> has_shape s r \<and>
           (\<forall>idx. valid_index s idx \<longrightarrow>
              entry r idx = (\<Sum>i<length ws. ws ! i * entry (ys ! i) idx))"
proof -
  from ne cands obtain op ops y ys' where o: "mo_ops m = op # ops" "ys = y # ys'"
    and c1: "m_call op st x = Inr y" "has_shape s y"
    and cs: "list_all2 (\<lambda>op y. m_call op st x = Inr y \<and> has_shape s y) ops ys'"
    by (cases "mo_ops m"; cases ys) auto
  from len o obtain w ws' where ws: "ws = w # ws'" "length ws' = length ops"
    by (cases ws) auto
  let ?v = "bop (*) (Sc w) y"
  have v: "has_shape s ?v" using c1 by (simp add: bop_Sc_shape)
  from mixed_sum_scalars [OF cs ws(2) v] obtain r where
    r: "mixed_sum st x ?v (zip (map Sc ws') ops) = Inr r" "has_shape s r"
       "\<And>idx. valid_index s idx \<Longrightarrow>
          entry r idx = entry ?v idx + sum_list (map2 (\<lambda>w y. w * entry y idx) ws' ys')"
    by blast
  have fw: "MixedOp_forward st m x (Ten (map Sc ws)) = Inr r"
    using r(1) c1 by (simp add: MixedOp_forward_def iter_tensor_def o ws tmul_Sc tadd_zero)
  have lys: "length ws = length ys"
    using len cands by (simp add: list_all2_lengthD)
  have "entry r idx = (\<Sum>i<length ws. ws ! i * entry (ys ! i) idx)" if "valid_index s idx" for idx
  proof -
    have "entry r idx = sum_list (map2 (\<lambda>w y. w * entry y idx) ws ys)"
      using r(3) [OF that] that c1 by (simp add: ws o bop_Sc_entry [where s = s])
    then show ?thesis using lys by (simp add: sum_list_map2_nth)
  qed
  with fw r(2) show ?thesis by blast
qed

text \<open>
  C4. Given a weight vector \<open>ws\<close> with one weight per candidate, candidates that all
  return on \<open>x\<close>, and outputs \<open>ys\<close> of one shape \<open>s\<close>, \<^verbatim>\<open>MixedOp.forward\<close> returns a tensor
  of that shape whose element at every index is the sum over \<open>i\<close> of \<open>ws ! i\<close> times the
  element of candidate \<open>i\<close>'s output there; with a one-hot \<open>ws\<close> the result is the output
  of the candidate at the 1.
\<close>

theorem MixedOp_forward_weighted_sum:
  assumes "length ws = length (mo_ops m)"
    and "mo_ops m \<noteq> []"
    and "list_all2 (\<lambda>op y. m_call op st x = Inr y \<and> has_shape s y) (mo_ops m) ys"
  shows "\<exists>r. MixedOp_forward st m x (Ten (map Sc ws)) = Inr r \<and> has_shape s r \<and>
           (\<forall>idx. valid_index s idx \<longrightarrow>
              entry r idx = (\<Sum>i<length ws. ws ! i * entry (ys ! i) idx)) \<and>
           (\<forall>i<length ws. ws = (replicate (length ws) 0)[i := 1] \<longrightarrow> r = ys ! i)"
proof -
  from MixedOp_weighted [OF assms] obtain r where
    r: "MixedOp_forward st m x (Ten (map Sc ws)) = Inr r" "has_shape s r"
       "\<And>idx. valid_index s idx \<Longrightarrow> entry r idx = (\<Sum>i<length ws. ws ! i * entry (ys ! i) idx)"
    by blast
  have "r = ys ! i" if i: "i < length ws" and hot: "ws = (replicate (length ws) 0)[i := 1]" for i
  proof (rule tensor_ext [of s])
    show "has_shape s r" by (rule r(2))
    show "has_shape s (ys ! i)"
      using assms(1,3) i by (auto dest: list_all2_nthD)
    fix idx assume "valid_index s idx"
    then have "entry r idx = (\<Sum>j<length ws. ws ! j * entry (ys ! j) idx)" by (rule r(3))
    also have "\<dots> = (\<Sum>j<length ws. if j = i then entry (ys ! j) idx else 0)"
    proof (rule sum.cong)
      fix j assume "j \<in> {..<length ws}"
      then have "ws ! j = (if j = i then 1 else 0)"
        by (subst hot) (simp add: nth_list_update)
      then show "ws ! j * entry (ys ! j) idx = (if j = i then entry (ys ! j) idx else 0)" by simp
    qed simp
    also have "\<dots> = entry (ys ! i) idx" using i by simp
    finally show "entry r idx = entry (ys ! i) idx" .
  qed
  with r show ?thesis by blast
qed

theorem MixedOp_forward_weighted_sum_witness:
  "length [0, 1 :: real] = length (mo_ops example_mixed) \<and> mo_ops example_mixed \<noteq> [] \<and>
   list_all2 (\<lambda>op y. m_call op example_store (Ten [Sc 1, Sc 2]) = Inr y \<and> has_shape [2] y)
     (mo_ops example_mixed) [Ten [Sc 1, Sc 2], Ten [Sc 2, Sc 4]] \<and>
   MixedOp_forward example_store example_mixed (Ten [Sc 1, Sc 2]) (Ten (map Sc [0, 1]))
     = Inr (Ten [Sc 2, Sc 4])"
proof -
  have h1: "length [0, 1 :: real] = length (mo_ops example_mixed)"
    by (simp add: example_mixed_def)
  have h2: "mo_ops example_mixed \<noteq> []"
    by (simp add: example_mixed_def)
  have h3: "list_all2 (\<lambda>op y. m_call op example_store (Ten [Sc 1, Sc 2]) = Inr y \<and> has_shape [2] y)
     (mo_ops example_mixed) [Ten [Sc 1, Sc 2], Ten [Sc 2, Sc 4]]"
    by (simp add: example_mixed_def example_ident_def example_double_def)
  from MixedOp_forward_weighted_sum [OF h1 h2 h3] obtain r where
    r: "MixedOp_forward example_store example_mixed (Ten [Sc 1, Sc 2]) (Ten (map Sc [0, 1])) = Inr r"
    and hot: "\<forall>i<length [0, 1 :: real]. [0, 1 :: real] = (replicate (length [0, 1 :: real]) 0)[i := 1]
        \<longrightarrow> r = [Ten [Sc 1, Sc 2], Ten [Sc 2, Sc 4]] ! i"
    by blast
  from hot [rule_format, of 1] have "r = Ten [Sc 2, Sc 4]"
    by (simp add: numeral_2_eq_2)
  with r h1 h2 h3 show ?thesis by simp
qed

lemma zip_cut: "zip xs ys = zip (take (length ys) xs) (take (length xs) ys)"
proof (induction xs arbitrary: ys)
  case Nil
  then show ?case by simp
next
  case (Cons x xs)
  then show ?case by (cases ys) auto
qed

text \<open>
  C5. The claim that a weight vector of another length than the candidate list makes
  \<^verbatim>\<open>MixedOp.forward\<close> fail does not hold: \<^verbatim>\<open>zip\<close> pairs weights and candidates up to the
  shorter of the two and drops the rest, so the call is the call on both cut to that
  length. With two candidates and one weight it returns the first candidate's output.
\<close>

theorem MixedOp_forward_cuts_to_shorter:
  "MixedOp_forward st m x (Ten ws) =
   MixedOp_forward st (m\<lparr>mo_ops := take (length ws) (mo_ops m)\<rparr>) x (Ten (take (length (mo_ops m)) ws))"
  using zip_cut [of ws "mo_ops m"] by (simp add: MixedOp_forward_def iter_tensor_def)

theorem MixedOp_forward_length_mismatch_counterexample:
  "length [Sc 1] \<noteq> length (mo_ops example_mixed) \<and>
   MixedOp_forward example_store example_mixed (Ten [Sc 1, Sc 2]) (Ten [Sc 1]) = Inr (Ten [Sc 1, Sc 2])"
  by (simp add: example_mixed_def example_ident_def MixedOp_forward_def iter_tensor_def
      tmul_def tadd_def broadcastable_def)

lemma list_entries_append [simp]: "list_entries (xs @ ys) = list_entries xs @ list_entries ys"
  by (induction xs rule: list_entries.induct) auto

section \<open>Construction of the network\<close>

lemma init_loop_theta:
  "fst (init_loop v h th ops bs) = th @ [h_next h..<h_next h + length (list_entries bs)]"
proof (induction v h th ops bs rule: init_loop.induct)
  case (3 v h th ops b bs)
  then show ?case by (simp add: alloc_def upt_conv_Cons del: upt_Suc)
qed auto

lemma init_loop_ops:
  "fst (snd (init_loop v h th ops bs)) = ops @ map MixedOp_init (list_entries bs)"
  by (induction v h th ops bs rule: init_loop.induct) (auto simp: alloc_def)

lemma init_loop_next:
  "h_next (snd (snd (init_loop v h th ops bs))) = h_next h + length (list_entries bs)"
  by (induction v h th ops bs rule: init_loop.induct) (auto simp: alloc_def)

lemma init_loop_val:
  "h_val (snd (snd (init_loop v h th ops bs))) r =
     (if h_next h \<le> r \<and> r < h_next h + length (list_entries bs)
      then Ten (replicate (length (list_entries bs ! (r - h_next h))) (Sc v))
      else h_val h r)"
proof (induction v h th ops bs arbitrary: r rule: init_loop.induct)
  case (3 v h th ops b bs)
  let ?h = "\<lparr>h_val = (h_val h)(h_next h := Ten (replicate (length b) (Sc v))), h_next = Suc (h_next h)\<rparr>"
  have IH: "h_val (snd (snd (init_loop v ?h (th @ [h_next h]) (ops @ [MixedOp_init b]) bs))) r =
     (if h_next ?h \<le> r \<and> r < h_next ?h + length (list_entries bs)
      then Ten (replicate (length (list_entries bs ! (r - h_next ?h))) (Sc v))
      else h_val ?h r)"
    using "3.IH" [of "length b" "(h_next h, ?h)" "h_next h" ?h r] by (simp add: alloc_def)
  show ?case
  proof (cases "r = h_next h")
    case True
    then show ?thesis using IH by (simp add: alloc_def)
  next
    case False
    then have "Suc (h_next h) \<le> r \<Longrightarrow> r - h_next h = Suc (r - Suc (h_next h))" by arith
    then show ?thesis using IH False by (auto simp: alloc_def)
  qed
qed auto

lemma init_loop_eq:
  "init_loop v h [] [] bs = (th, ops, h1) \<Longrightarrow>
   th = [h_next h..<h_next h + length (list_entries bs)] \<and>
   ops = map MixedOp_init (list_entries bs) \<and>
   h_next h1 = h_next h + length (list_entries bs) \<and>
   (\<forall>r. h_val h1 r =
     (if h_next h \<le> r \<and> r < h_next h + length (list_entries bs)
      then Ten (replicate (length (list_entries bs ! (r - h_next h))) (Sc v))
      else h_val h r))"
  using init_loop_theta [of v h "[]" "[]" bs] init_loop_ops [of v h "[]" "[]" bs]
    init_loop_next [of v h "[]" "[]" bs] init_loop_val [of v h "[]" "[]" bs]
  by simp

lemma FBNet_init_Inr_iff:
  "FBNet_init ev fs h nc blocks v f a b = Inr (net, h') \<longleftrightarrow>
     length (list_entries blocks) = 22 \<and>
     (\<exists>content. fs f = Some content \<and>
        net = \<lparr>net_alpha = a, net_beta = b, net_theta = [h_next h..<h_next h + 22],
               net_ops = map MixedOp_init (list_entries blocks), net_blocks = blocks,
               net_speed = py_readlines content,
               net_classifier = \<lparr>l_weight = h_next h + 22, l_bias = h_next h + 23\<rparr>,
               net_out = None\<rparr> \<and>
        h' = \<lparr>h_val = (h_val (snd (snd (init_loop v h [] [] blocks))))
                 (h_next h + 22 := fst (linear_init ev 1984 nc),
                  h_next h + 23 := snd (linear_init ev 1984 nc)),
              h_next = h_next h + 24\<rparr>)"
proof -
  obtain th ops h1 where il: "init_loop v h [] [] blocks = (th, ops, h1)"
    by (cases "init_loop v h [] [] blocks") auto
  note facts = init_loop_eq [OF il]
  show ?thesis
  proof (cases "length (list_entries blocks) = 22")
    case False
    then show ?thesis using facts by (simp add: FBNet_init_def il)
  next
    case True
    show ?thesis
    proof (cases "fs f")
      case None
      then show ?thesis using facts True by (simp add: FBNet_init_def il)
    next
      case (Some content)
      then show ?thesis using facts True
        by (auto simp: FBNet_init_def il alloc_def Let_def split: prod.splits)
    qed
  qed
qed

lemma FBNet_init_assert:
  "length (list_entries blocks) \<noteq> 22 \<Longrightarrow> FBNet_init ev fs h nc blocks v f a b = Inl AssertionError"
proof -
  obtain th ops h1 where il: "init_loop v h [] [] blocks = (th, ops, h1)"
    by (cases "init_loop v h [] [] blocks") auto
  assume "length (list_entries blocks) \<noteq> 22"
  then show ?thesis using init_loop_eq [OF il] by (simp add: FBNet_init_def il)
qed

text \<open>
  C6. Construction fails with an AssertionError whenever the number of list-valued
  entries is not 22. When it is 22 and the latency file can be read, construction
  succeeds with one new theta vector per list-valued entry, filled with the initial
  value and as long as the entry's candidate list, and one Mixed Operation per entry
  over that list, in order.
\<close>

theorem FBNet_init_count:
  "(length (list_entries blocks) \<noteq> 22 \<longrightarrow>
      FBNet_init ev fs h num_classes blocks init_theta speed_f alpha beta = Inl AssertionError) \<and>
   (length (list_entries blocks) = 22 \<longrightarrow> fs speed_f \<noteq> None \<longrightarrow>
      (\<exists>net h'. FBNet_init ev fs h num_classes blocks init_theta speed_f alpha beta = Inr (net, h') \<and>
         length (net_theta net) = length (list_entries blocks) \<and>
         distinct (net_theta net) \<and>
         map (h_val h') (net_theta net) =
           map (\<lambda>b. Ten (replicate (length b) (Sc init_theta))) (list_entries blocks) \<and>
         net_ops net = map MixedOp_init (list_entries blocks)))"
proof (intro conjI impI)
  assume "length (list_entries blocks) \<noteq> 22"
  then show "FBNet_init ev fs h num_classes blocks init_theta speed_f alpha beta = Inl AssertionError"
    by (rule FBNet_init_assert)
next
  assume n: "length (list_entries blocks) = 22" and "fs speed_f \<noteq> None"
  then obtain content where c: "fs speed_f = Some content" by auto
  define net where "net = \<lparr>net_alpha = alpha, net_beta = beta, net_theta = [h_next h..<h_next h + 22],
               net_ops = map MixedOp_init (list_entries blocks), net_blocks = blocks,
               net_speed = py_readlines content,
               net_classifier = \<lparr>l_weight = h_next h + 22, l_bias = h_next h + 23\<rparr>,
               net_out = None\<rparr>"
  define h' where "h' = \<lparr>h_val = (h_val (snd (snd (init_loop init_theta h [] [] blocks))))
                 (h_next h + 22 := fst (linear_init ev 1984 num_classes),
                  h_next h + 23 := snd (linear_init ev 1984 num_classes)),
              h_next = h_next h + 24\<rparr>"
  have init: "FBNet_init ev fs h num_classes blocks init_theta speed_f alpha beta = Inr (net, h')"
    using n c by (simp add: FBNet_init_Inr_iff net_def h'_def)
  have vals: "map (h_val h') (net_theta net) =
           map (\<lambda>b. Ten (replicate (length b) (Sc init_theta))) (list_entries blocks)"
  proof (rule nth_equalityI)
    show "length (map (h_val h') (net_theta net)) =
      length (map (\<lambda>b. Ten (replicate (length b) (Sc init_theta))) (list_entries blocks))"
      using n by (simp add: net_def)
  next
    fix i assume "i < length (map (h_val h') (net_theta net))"
    then have i: "i < 22" by (simp add: net_def)
    then show "map (h_val h') (net_theta net) ! i =
      map (\<lambda>b. Ten (replicate (length b) (Sc init_theta))) (list_entries blocks) ! i"
      using n by (simp add: net_def h'_def init_loop_val del: upt_Suc)
  qed
  show "\<exists>net h'. FBNet_init ev fs h num_classes blocks init_theta speed_f alpha beta = Inr (net, h') \<and>
         length (net_theta net) = length (list_entries blocks) \<and>
         distinct (net_theta net) \<and>
         map (h_val h') (net_theta net) =
           map (\<lambda>b. Ten (replicate (length b) (Sc init_theta))) (list_entries blocks) \<and>
         net_ops net = map MixedOp_init (list_entries blocks)"
    using init vals n by (intro exI [of _ net] exI [of _ h']) (simp add: net_def)
qed

section \<open>The catalog\<close>

lemma candidates_length:
  "for_each (candidate_step ev c_in c_out stride) (tmp, h) idxs = Inr (tmp', h') \<Longrightarrow>
   length tmp' = length tmp + length idxs"
proof (induction idxs arbitrary: tmp h)
  case Nil
  then show ?case by simp
next
  case (Cons i idxs)
  from Cons.prems obtain s1 where
    step: "candidate_step ev c_in c_out stride (tmp, h) i = Inr s1"
    and rest: "for_each (candidate_step ev c_in c_out stride) s1 idxs = Inr (tmp', h')"
    by (auto simp: bind_err_Inr_iff)
  from step obtain blk h1 where "s1 = (tmp @ [FBNetBlock_module blk], h1)"
    by (auto simp: bind_err_Inr_iff candidate_step_def Let_def)
  with rest Cons.IH [of "tmp @ [FBNetBlock_module blk]" h1] show ?case by simp
qed

lemma layers_shape:
  "for_each (layer_step ev n_idx) (B, c_in, c_out, stride, h) is = Inr (B', c_in', c_out', stride', h') \<Longrightarrow>
   \<exists>L. B' = B @ map PyList L \<and> length L = length is \<and> (\<forall>cs \<in> set L. length cs = 8)"
proof (induction "is" arbitrary: B c_in c_out stride h)
  case Nil
  then show ?case by simp
next
  case (Cons i "is")
  from Cons.prems obtain s1 where
    step: "layer_step ev n_idx (B, c_in, c_out, stride, h) i = Inr s1"
    and rest1: "for_each (layer_step ev n_idx) s1 is = Inr (B', c_in', c_out', stride', h')"
    by (auto simp: bind_err_Inr_iff)
  from step obtain tmp h1 where
    c: "for_each (candidate_step ev c_in (f_tab ! n_idx) stride) ([], h) [0..<length e_tab] = Inr (tmp, h1)"
    and s1: "s1 = (B @ [PyList tmp], f_tab ! n_idx, f_tab ! n_idx, 1, h1)"
    by (auto simp: bind_err_Inr_iff layer_step_def Let_def)
  from rest1 s1 have
    rest: "for_each (layer_step ev n_idx) (B @ [PyList tmp], f_tab ! n_idx, f_tab ! n_idx, 1, h1) is
       = Inr (B', c_in', c_out', stride', h')" by simp
  from candidates_length [OF c] have tmp: "length tmp = 8" by (simp add: e_tab_def)
  from Cons.IH [OF rest] obtain L where
    L: "B' = (B @ [PyList tmp]) @ map PyList L" "length L = length is" "\<forall>cs \<in> set L. length cs = 8"
    by blast
  with tmp show ?case by (intro exI [of _ "tmp # L"]) simp
qed

lemma stages_shape:
  "for_each (stage_step ev) (B, c_in, c_out, h) idxs = Inr (B', c_in', c_out', h') \<Longrightarrow>
   \<exists>L. B' = B @ map PyList L \<and> length L = sum_list (map (\<lambda>i. n_tab ! i) idxs) \<and>
       (\<forall>cs \<in> set L. length cs = 8)"
proof (induction idxs arbitrary: B c_in c_out h)
  case Nil
  then show ?case by simp
next
  case (Cons i idxs)
  from Cons.prems obtain s1 where
    step: "stage_step ev (B, c_in, c_out, h) i = Inr s1"
    and rest1: "for_each (stage_step ev) s1 idxs = Inr (B', c_in', c_out', h')"
    by (auto simp: bind_err_Inr_iff)
  from step obtain B1 c1 c2 st1 h1 where
    layers: "for_each (layer_step ev i) (B, c_in, f_tab ! i, s_tab ! i, h) [0..<n_tab ! i]
       = Inr (B1, c1, c2, st1, h1)"
    and s1: "s1 = (B1, c1, c2, h1)"
    by (auto simp: bind_err_Inr_iff stage_step_def Let_def)
  from rest1 s1 have
    rest: "for_each (stage_step ev) (B1, c1, c2, h1) idxs = Inr (B', c_in', c_out', h')" by simp
  from layers_shape [OF layers] obtain L1 where
    L1: "B1 = B @ map PyList L1" "length L1 = n_tab ! i" "\<forall>cs \<in> set L1. length cs = 8"
    by auto
  from Cons.IH [OF rest] obtain L where
    L: "B' = B1 @ map PyList L" "length L = sum_list (map (\<lambda>i. n_tab ! i) idxs)"
      "\<forall>cs \<in> set L. length cs = 8"
    by blast
  with L1 show ?case by (intro exI [of _ "L1 @ L"]) auto
qed

lemma list_entries_map_PyList [simp]: "list_entries (map PyList L) = L"
  by (induction L) auto

lemma get_blocks_shape:
  assumes "get_blocks ev h = Inr (blocks, h')"
  shows "length blocks = 24 \<and> length (list_entries blocks) = 22 \<and>
         (\<forall>cs \<in> set (list_entries blocks). length cs = 8) \<and>
         (\<exists>stem head. hd blocks = Module stem \<and> last blocks = Module head)"
proof -
  from assms obtain stem h0 B c1 c2 h1 head where
    stages: "for_each (stage_step ev) ([Module stem], 16, 16, h0) [1..<8] = Inr (B, c1, c2, h1)"
    and blocks: "blocks = B @ [Module head]" and len: "length blocks = 24"
    by (auto simp: get_blocks_def bind_err_Inr_iff Let_def split: if_splits)
  from stages_shape [OF stages] obtain L where
    L: "B = [Module stem] @ map PyList L" "length L = sum_list (map (\<lambda>i. n_tab ! i) [1..<8])"
      "\<forall>cs \<in> set L. length cs = 8"
    by blast
  have "sum_list (map (\<lambda>i. n_tab ! i) [1..<8]) = 22"
    by (simp add: n_tab_def upt_rec)
  with L blocks len show ?thesis by simp
qed

lemma not_isl_iff: "\<not> isl m \<longleftrightarrow> (\<exists>v. m = Inr v)"
  by (cases m) auto

lemma FBNetBlock_init_returns:
  assumes conv: "\<forall>a h. \<not> isl (nn_Conv2d ev a h)" and stride: "stride = 1 \<or> stride = 2"
  shows "\<not> isl (FBNetBlock_init ev h C_in C_out k stride expansion g False)"
proof -
  from conv have c: "\<exists>m h'. nn_Conv2d ev a h = Inr (m, h')" for a h
    by (metis not_isl_iff surj_pair)
  obtain m1 h1 where 1: "nn_Conv2d ev (expand_args C_in expansion g True) h = Inr (m1, h1)"
    using c by blast
  obtain m2 h2 where 2: "nn_Conv2d ev (depthwise_args C_in stride expansion True) h1 = Inr (m2, h2)"
    using c by blast
  obtain m3 h3 where 3: "nn_Conv2d ev (project_args C_in C_out expansion g True) h2 = Inr (m3, h3)"
    using c by blast
  obtain m4 h4 where 4: "nn_Conv2d ev \<lparr>cv_in = C_in, cv_out = C_out, cv_kernel = 3, cv_stride = 2,
      cv_padding = 1, cv_groups = 1, cv_bias = True\<rparr> h3 = Inr (m4, h4)"
    using c by blast
  obtain m5 h5 where 5: "nn_Conv2d ev \<lparr>cv_in = C_in, cv_out = C_out, cv_kernel = 1, cv_stride = 1,
      cv_padding = 0, cv_groups = 1, cv_bias = True\<rparr> h3 = Inr (m5, h5)"
    using c by blast
  from stride show ?thesis
    by (auto simp: FBNetBlock_init_def 1 2 3 4 5 Let_def)
qed

lemma candidates_return:
  assumes "\<forall>a h. \<not> isl (nn_Conv2d ev a h)" and "stride = 1 \<or> stride = 2"
  shows "\<not> isl (for_each (candidate_step ev c_in c_out stride) s idxs)"
proof (induction idxs arbitrary: s)
  case Nil
  then show ?case by simp
next
  case (Cons i idxs)
  obtain tmp h where s: "s = (tmp, h)" by (cases s) auto
  from FBNetBlock_init_returns [OF assms, of h c_in c_out "kernel_tab ! i" "e_tab ! i" "group_tab ! i"]
  obtain blk h1 where
    "FBNetBlock_init ev h c_in c_out (kernel_tab ! i) stride (e_tab ! i) (group_tab ! i) False = Inr (blk, h1)"
    by (metis not_isl_iff surj_pair)
  then have "candidate_step ev c_in c_out stride s i = Inr (tmp @ [FBNetBlock_module blk], h1)"
    by (simp add: candidate_step_def s Let_def)
  with Cons.IH show ?case by simp
qed

lemma layers_return:
  assumes "\<forall>a h. \<not> isl (nn_Conv2d ev a h)" and "stride = 1 \<or> stride = 2"
  shows "\<not> isl (for_each (layer_step ev n_idx) (B, c_in, c_out, stride, h) is)"
  using assms(2)
proof (induction "is" arbitrary: B c_in c_out stride h)
  case Nil
  then show ?case by simp
next
  case (Cons i "is")
  from candidates_return [OF assms(1) Cons.prems, of c_in "f_tab ! n_idx" "([], h)" "[0..<length e_tab]"]
  obtain tmp h1 where
    "for_each (candidate_step ev c_in (f_tab ! n_idx) stride) ([], h) [0..<length e_tab] = Inr (tmp, h1)"
    by (metis not_isl_iff surj_pair)
  then have "layer_step ev n_idx (B, c_in, c_out, stride, h) i
      = Inr (B @ [PyList tmp], f_tab ! n_idx, f_tab ! n_idx, 1, h1)"
    by (simp add: layer_step_def Let_def)
  with Cons.IH [of 1] show ?case by simp
qed

lemma stages_return:
  assumes "\<forall>a h. \<not> isl (nn_Conv2d ev a h)" and "\<forall>i \<in> set idxs. s_tab ! i = 1 \<or> s_tab ! i = 2"
  shows "\<not> isl (for_each (stage_step ev) s idxs)"
  using assms(2)
proof (induction idxs arbitrary: s)
  case Nil
  then show ?case by simp
next
  case (Cons i idxs)
  obtain B c_in c_out h where s: "s = (B, c_in, c_out, h)" by (cases s) auto
  from Cons.prems have "s_tab ! i = 1 \<or> s_tab ! i = 2" by simp
  from layers_return [OF assms(1) this, of i B c_in "f_tab ! i" h "[0..<n_tab ! i]"]
  obtain B1 c1 c2 st1 h1 where
    "for_each (layer_step ev i) (B, c_in, f_tab ! i, s_tab ! i, h) [0..<n_tab ! i] = Inr (B1, c1, c2, st1, h1)"
    by (metis not_isl_iff surj_pair)
  then have "stage_step ev s i = Inr (B1, c1, c2, h1)"
    by (simp add: stage_step_def s Let_def)
  with Cons.IH Cons.prems show ?case by simp
qed

lemma get_blocks_returns:
  assumes conv: "\<forall>a h. \<not> isl (nn_Conv2d ev a h)"
  shows "\<exists>blocks h'. get_blocks ev h = Inr (blocks, h')"
proof -
  from conv have c: "\<exists>m h'. nn_Conv2d ev a h = Inr (m, h')" for a h
    by (metis not_isl_iff surj_pair)
  obtain stem h0 where stem: "nn_Conv2d ev \<lparr>cv_in = 3, cv_out = 16, cv_kernel = 3, cv_stride = 2,
      cv_padding = 1, cv_groups = 1, cv_bias = True\<rparr> h = Inr (stem, h0)"
    using c by blast
  have "\<forall>i \<in> set [1..<8]. s_tab ! i = 1 \<or> s_tab ! i = 2"
    by (simp add: s_tab_def upt_rec)
  from stages_return [OF conv this, of "([Module stem], 16, 16, h0)"]
  obtain B c1 c2 h1 where
    stages: "for_each (stage_step ev) ([Module stem], 16, 16, h0) [1..<8] = Inr (B, c1, c2, h1)"
    by (metis not_isl_iff surj_pair)
  obtain head h2 where head: "nn_Conv2d ev \<lparr>cv_in = c2, cv_out = 1984, cv_kernel = 1, cv_stride = 1,
      cv_padding = 0, cv_groups = 1, cv_bias = True\<rparr> h1 = Inr (head, h2)"
    using c by blast
  from stages_shape [OF stages] obtain L where
    "B = [Module stem] @ map PyList L" "length L = sum_list (map (\<lambda>i. n_tab ! i) [1..<8])"
    by blast
  moreover have "sum_list (map (\<lambda>i. n_tab ! i) [1..<8]) = 22"
    by (simp add: n_tab_def upt_rec)
  ultimately have len: "length (B @ [Module head]) = 24" by simp
  have "get_blocks ev h = Inr (B @ [Module head], h2)"
    unfolding get_blocks_def stem stages head bind_err_simps prod.case Let_def
    using len by simp
  then show ?thesis by blast
qed

lemma catalog_kernel_pairs:
  "b_idx < 4 \<Longrightarrow> e_tab ! b_idx = e_tab ! (b_idx + 4) \<and> group_tab ! b_idx = group_tab ! (b_idx + 4) \<and>
     kernel_tab ! b_idx = 3 \<and> kernel_tab ! (b_idx + 4) = 5"
  by (auto simp: e_tab_def group_tab_def kernel_tab_def less_Suc_eq numeral_eq_Suc)

section \<open>The forward pass\<close>

lemma searchable_step_InrD:
  assumes "searchable_step ev st net B temp (k, lat, d) = Inr (k', lat', d')"
  shows "k' = Suc k \<and> k < length (net_theta net) \<and> Suc k < length (net_speed net) \<and>
         Suc k < length (net_ops net)"
  using assms
  by (auto simp: searchable_step_def bind_err_Inr_iff py_nth_Inr_iff Let_def)

lemma block_step_InrD:
  assumes "block_step ev st net B temp b (k, lat, d) = Inr (k', lat', d')"
  shows "(k' = Suc k \<and> Suc k < length (net_ops net) \<and> k < length (net_theta net)) \<or>
         (k' = k \<and> (\<exists>m. b = Module m))"
  using assms
  by (cases b)
    (auto simp: block_step_def block_len_def block_call_def bind_err_Inr_iff
      dest!: searchable_step_InrD split: if_splits option.splits)

lemma block_step_PyList_InrD:
  assumes "block_step ev st net B temp (PyList cs) (k, lat, d) = Inr (k', lat', d')"
  shows "k' = Suc k \<and> Suc k < length (net_ops net) \<and> k < length (net_theta net)"
  using block_step_InrD [OF assms] by auto

lemma forward_loop_fails:
  assumes "length (net_ops net) \<le> k + length (list_entries bs)"
    and "list_entries bs \<noteq> []"
  shows "isl (forward_loop ev st net B temp bs (k, lat, d))"
  using assms
proof (induction bs arbitrary: k lat d)
  case Nil
  then show ?case by simp
next
  case (Cons b bs)
  show ?case
  proof (cases "block_step ev st net B temp b (k, lat, d)")
    case (Inl e)
    then show ?thesis by simp
  next
    case (Inr s)
    obtain k' lat' d' where s: "s = (k', lat', d')" by (cases s) auto
    have "isl (forward_loop ev st net B temp bs (k', lat', d'))"
    proof (cases b)
      case (Module m)
      with Inr s block_step_InrD [of ev st net B temp b k lat d k' lat' d']
      have "k' = Suc k \<or> k' = k" by auto
      with Cons.prems Module show ?thesis by (intro Cons.IH) auto
    next
      case (PyList cs)
      with Inr s block_step_PyList_InrD [of ev st net B temp cs k lat d k' lat' d']
      have k': "k' = Suc k" "Suc k < length (net_ops net)" by auto
      with Cons.prems PyList show ?thesis by (intro Cons.IH) auto
    qed
    with Inr s show ?thesis by simp
  qed
qed

lemma forward_loop_append:
  "forward_loop ev st net B temp (xs @ ys) s =
   bind_err (forward_loop ev st net B temp xs s) (forward_loop ev st net B temp ys)"
proof (induction xs arbitrary: s)
  case Nil
  then show ?case by simp
next
  case (Cons x xs)
  then show ?case by (cases "block_step ev st net B temp x s") auto
qed

lemma forward_loop_counts:
  assumes "forward_loop ev st net B temp bs (k, lat, d) = Inr (k', lat', d')"
  shows "k + length (list_entries bs) \<le> k'"
  using assms
proof (induction bs arbitrary: k lat d)
  case Nil
  then show ?case by simp
next
  case (Cons b bs)
  from Cons.prems obtain k1 lat1 d1 where
    step: "block_step ev st net B temp b (k, lat, d) = Inr (k1, lat1, d1)"
    and rest: "forward_loop ev st net B temp bs (k1, lat1, d1) = Inr (k', lat', d')"
    by (auto simp: bind_err_Inr_iff)
  from Cons.IH [OF rest] have le: "k1 + length (list_entries bs) \<le> k'" .
  show ?case
  proof (cases b)
    case (Module m)
    with step block_step_InrD [OF step] le show ?thesis by auto
  next
    case (PyList cs)
    with step block_step_PyList_InrD [of ev st net B temp cs k lat d k1 lat1 d1] le
    show ?thesis by auto
  qed
qed

lemma constructed_forward_fails:
  assumes "FBNet_init ev fs h num_classes blocks init_theta speed_f alpha beta = Inr (net, h')"
  shows "isl (FBNet_forward ev' st net input target temperature)"
proof -
  from assms have n: "length (list_entries blocks) = 22"
    and ops: "length (net_ops net) = 22" and bl: "net_blocks net = blocks"
    by (auto simp: FBNet_init_Inr_iff)
  show ?thesis
  proof (cases blocks)
    case Nil
    with n show ?thesis by simp
  next
    case (Cons b0 bs)
    show ?thesis
    proof (cases b0)
      case (PyList cs)
      then show ?thesis
        by (cases "py_nth (dims input) 0")
          (simp_all add: FBNet_forward_def bl Cons py_nth_def block_call_def)
    next
      case (Module m)
      with n Cons have "length (net_ops net) \<le> 0 + length (list_entries bs)" "list_entries bs \<noteq> []"
        using ops by auto
      then have "isl (forward_loop ev' st net B temperature bs (0, [], d))" for B d
        by (rule forward_loop_fails)
      then have "forward_loop ev' st net B temperature bs (0, [], d) = Inr s \<Longrightarrow> False" for B d s
        by (metis sum.disc(2))
      then show ?thesis
        by (cases "FBNet_forward ev' st net input target temperature")
          (auto simp: FBNet_forward_def bl Cons bind_err_Inr_iff)
    qed
  qed
qed

text \<open>
  C1. The claim is that a forward call returns the composite loss. On a network that
  the constructor built, it returns nothing: every call raises, whatever the input,
  the store and the library do.
\<close>

theorem FBNet_forward_never_returns:
  assumes "FBNet_init ev fs h num_classes blocks init_theta speed_f alpha beta = Inr (net, h')"
  shows "isl (FBNet_forward ev' st net input target temperature)"
  using assms by (rule constructed_forward_fails)

lemma broadcastable_Sc2 [simp]: "broadcastable t (Sc c)"
  by (cases "rev (dims t)") (simp_all add: broadcastable_def)

lemma last_position_index_error:
  assumes ops: "length (net_ops net) = 22" and th: "length (net_theta net) = 22"
    and k: "21 \<le> k"
    and cs: "1 < length cs"
    and row: "22 < length (net_speed net) \<Longrightarrow> \<not> isl (speed_row ev (net_speed net ! 22))"
  shows "block_step ev st net B temp (PyList cs) (k, lat, d) = Inl IndexError"
proof (cases "k = 21")
  case False
  with k th show ?thesis using cs
    by (simp add: block_step_def block_len_def searchable_step_def py_nth_def)
next
  case True
  show ?thesis
  proof (cases "22 < length (net_speed net)")
    case False
    then show ?thesis using cs th True
      by (simp add: block_step_def block_len_def searchable_step_def py_nth_def Let_def)
  next
    case len: True
    then have "\<not> isl (speed_row ev (net_speed net ! 22))"
      by (rule row)
    then obtain speed where "speed_row ev (net_speed net ! 22) = Inr speed"
      by (cases "speed_row ev (net_speed net ! 22)") auto
    then show ?thesis using cs th ops True len
      by (simp add: block_step_def block_len_def searchable_step_def py_nth_def Let_def tmul_def)
  qed
qed

lemma reached_last_position_fails:
  assumes init: "FBNet_init ev fs h num_classes blocks init_theta speed_f alpha beta = Inr (net, h')"
    and layout: "blocks = Module stem # pre @ PyList cs # post" "list_entries post = []"
    and cs: "1 < length cs"
    and inp: "dims input \<noteq> []"
    and stem: "m_call stem st input = Inr data"
    and reach: "\<not> isl (forward_loop ev' st net (dims input ! 0) temperature pre (0, [], data))"
    and row: "22 < length (net_speed net) \<longrightarrow> \<not> isl (speed_row ev' (net_speed net ! 22))"
  shows "FBNet_forward ev' st net input target temperature = Inl IndexError"
proof -
  from init have n: "length (list_entries blocks) = 22"
    and ops: "length (net_ops net) = 22" and th: "length (net_theta net) = 22"
    and bl: "net_blocks net = blocks"
    by (auto simp: FBNet_init_Inr_iff)
  from n layout have pre: "length (list_entries pre) = 21" by simp
  let ?B = "dims input ! 0"
  from reach obtain k lat d where
    run: "forward_loop ev' st net ?B temperature pre (0, [], data) = Inr (k, lat, d)"
    by (cases "forward_loop ev' st net ?B temperature pre (0, [], data)") auto
  from forward_loop_counts [OF run] pre have k: "21 \<le> k" by simp
  have "block_step ev' st net ?B temperature (PyList cs) (k, lat, d) = Inl IndexError"
    using ops th k cs row by (intro last_position_index_error) auto
  then have "forward_loop ev' st net ?B temperature (pre @ PyList cs # post) (0, [], data) = Inl IndexError"
    by (simp add: forward_loop_append run)
  then show ?thesis using inp stem
    by (simp add: FBNet_forward_def bl layout py_nth_def block_call_def)
qed

lemma py_nth_update_other: "i \<noteq> j \<Longrightarrow> py_nth (xs[i := r]) j = py_nth xs j"
  by (simp add: py_nth_def)

lemma searchable_step_next_op:
  assumes "searchable_step ev st net B temp (k, lat, d) = Inr (k', lat', d')"
  shows "k' = Suc k \<and>
         MixedOp_forward st (net_ops net ! Suc k) d
           (gumbel_softmax ev (repeat_rows B (st (net_theta net ! k))) temp) = Inr d'"
  using assms
  by (auto simp: searchable_step_def bind_err_Inr_iff py_nth_Inr_iff Let_def)

text \<open>
  C3, amended. On a network built with 22 searchable positions no forward call returns
  a loss. The index is incremented before the latency row and the Mixed Operation are
  looked up: the step at position \<open>k\<close> does not depend on the Mixed Operation at index
  \<open>k\<close>, a step that returns has used theta vector \<open>k\<close> and the Mixed Operation at index
  \<open>k + 1\<close>, and index 22 is out of range in the list of 22 Mixed Operations. A call raises IndexError at the last searchable position when its run
  reaches that position (the input has a batch dimension, the stem and every block
  before the position return), the position's list \<open>cs\<close> has more than one candidate,
  and line 22 of the latency file, if there is one, parses. Otherwise the call raises
  earlier or another error.
\<close>

theorem FBNet_forward_index_error:
  assumes "FBNet_init ev fs h num_classes blocks init_theta speed_f alpha beta = Inr (net, h')"
  shows "isl (FBNet_forward ev' st net input target temperature) \<and>
         py_nth (net_ops net) 22 = Inl IndexError \<and>
         (\<forall>k lat d k' lat' d'.
            searchable_step ev' st net B temperature (k, lat, d) = Inr (k', lat', d') \<longrightarrow>
            k' = Suc k \<and>
            MixedOp_forward st (net_ops net ! Suc k) d
              (gumbel_softmax ev' (repeat_rows B (st (net_theta net ! k))) temperature) = Inr d') \<and>
         (\<forall>stem pre cs post data.
            blocks = Module stem # pre @ PyList cs # post \<and> list_entries post = [] \<and>
            1 < length cs \<and> dims input \<noteq> [] \<and> m_call stem st input = Inr data \<and>
            \<not> isl (forward_loop ev' st net (dims input ! 0) temperature pre (0, [], data)) \<and>
            (22 < length (net_speed net) \<longrightarrow> \<not> isl (speed_row ev' (net_speed net ! 22))) \<longrightarrow>
            FBNet_forward ev' st net input target temperature = Inl IndexError) \<and>
         (\<forall>k lat d mo.
            searchable_step ev' st (net\<lparr>net_ops := (net_ops net)[k := mo]\<rparr>) B temperature (k, lat, d) =
            searchable_step ev' st net B temperature (k, lat, d))"
proof (intro conjI allI impI)
  show "searchable_step ev' st (net\<lparr>net_ops := (net_ops net)[k := mo]\<rparr>) B temperature (k, lat, d) =
            searchable_step ev' st net B temperature (k, lat, d)" for k lat d mo
    by (simp add: searchable_step_def py_nth_update_other)
  show "isl (FBNet_forward ev' st net input target temperature)"
    using assms by (rule constructed_forward_fails)
  from assms have "length (net_ops net) = 22" by (auto simp: FBNet_init_Inr_iff)
  then show "py_nth (net_ops net) 22 = Inl IndexError" by (simp add: py_nth_def)
next
  fix k lat d k' lat' d'
  assume s: "searchable_step ev' st net B temperature (k, lat, d) = Inr (k', lat', d')"
  from searchable_step_next_op [OF s] show "k' = Suc k"
    and "MixedOp_forward st (net_ops net ! Suc k) d
              (gumbel_softmax ev' (repeat_rows B (st (net_theta net ! k))) temperature) = Inr d'"
    by auto
next
  fix stem pre cs post data
  assume a: "blocks = Module stem # pre @ PyList cs # post \<and> list_entries post = [] \<and>
            1 < length cs \<and> dims input \<noteq> [] \<and> m_call stem st input = Inr data \<and>
            \<not> isl (forward_loop ev' st net (dims input ! 0) temperature pre (0, [], data)) \<and>
            (22 < length (net_speed net) \<longrightarrow> \<not> isl (speed_row ev' (net_speed net ! 22)))"
  then have layout: "blocks = Module stem # pre @ PyList cs # post" and post: "list_entries post = []"
    and cs: "1 < length cs" and inp: "dims input \<noteq> []" and stem: "m_call stem st input = Inr data"
    and reach: "\<not> isl (forward_loop ev' st net (dims input ! 0) temperature pre (0, [], data))"
    and row: "22 < length (net_speed net) \<longrightarrow> \<not> isl (speed_row ev' (net_speed net ! 22))"
    by blast+
  from assms layout post cs inp stem reach row
  show "FBNet_forward ev' st net input target temperature = Inl IndexError"
    by (rule reached_last_position_fails)
qed

text \<open>
  C2. The claim is that the \<open>i\<close>-th searchable position uses row \<open>i\<close> of the latency
  table. The step at position \<open>i\<close> does not read row \<open>i\<close>: replacing that row by anything
  leaves the step unchanged. It reads row \<open>i + 1\<close>, and row 0 is read by no position.
\<close>

theorem searchable_step_ignores_own_row:
  "searchable_step ev st (net\<lparr>net_speed := (net_speed net)[i := r]\<rparr>) B temp (i, lat, d) =
   searchable_step ev st net B temp (i, lat, d)"
  by (simp add: searchable_step_def py_nth_update_other)

lemma searchable_step_ignores_row_0:
  "searchable_step ev st (net\<lparr>net_speed := (net_speed net)[0 := r]\<rparr>) B temp s =
   searchable_step ev st net B temp s"
  by (cases s) (simp add: searchable_step_def py_nth_update_other)

lemma block_step_ignores_row_0:
  "block_step ev st (net\<lparr>net_speed := (net_speed net)[0 := r]\<rparr>) B temp b s =
   block_step ev st net B temp b s"
  by (cases "block_len b") (simp_all add: block_step_def searchable_step_ignores_row_0)

lemma forward_loop_ignores_row_0:
  "forward_loop ev st (net\<lparr>net_speed := (net_speed net)[0 := r]\<rparr>) B temp bs s =
   forward_loop ev st net B temp bs s"
proof (induction bs arbitrary: s)
  case Nil
  then show ?case by simp
next
  case (Cons b bs)
  then show ?case
    by (cases "block_step ev st net B temp b s") (simp_all add: block_step_ignores_row_0)
qed

lemma list_entries_replicate [simp]: "list_entries (replicate n (PyList cs)) = replicate n cs"
  by (induction n) auto

lemma list_entries_example [simp]: "list_entries example_blocks = replicate 22 example_cands"
proof -
  have "replicate 22 example_cands = replicate (Suc 21) example_cands" by simp
  also have "\<dots> = replicate 21 example_cands @ [example_cands]"
    by (simp only: replicate_Suc replicate_append_same)
  finally show ?thesis by (simp add: example_blocks_def)
qed

lemma readlines_example: "py_readlines (concat (replicate n example_line)) = replicate n example_line"
proof -
  have u: "universal_newlines (example_line @ xs) = example_line @ universal_newlines xs" for xs
    by (cases xs) (simp_all add: example_line_def)
  have l: "lines_keepends (example_line @ xs) = example_line # lines_keepends xs" for xs
    by (simp add: example_line_def)
  have "universal_newlines (concat (replicate n example_line)) = concat (replicate n example_line)"
    by (induction n) (simp_all add: u)
  moreover have "lines_keepends (concat (replicate n example_line)) = replicate n example_line"
    by (induction n) (simp_all add: l)
  ultimately show ?thesis by (simp add: py_readlines_def)
qed

lemma example_init:
  "\<exists>h'. FBNet_init example_env example_fs example_heap 10 example_blocks 1 ''./speed.txt'' 0.2 0.6
     = Inr (example_net, h') \<and> h_val h' = example_params"
proof -
  let ?h = "snd (snd (init_loop 1 example_heap [] [] example_blocks))"
  let ?h' = "\<lparr>h_val = (h_val ?h)(h_next example_heap + 22 := fst (linear_init example_env 1984 10),
                  h_next example_heap + 23 := snd (linear_init example_env 1984 10)),
              h_next = h_next example_heap + 24\<rparr>"
  have "FBNet_init example_env example_fs example_heap 10 example_blocks 1 ''./speed.txt'' 0.2 0.6
     = Inr (example_net, ?h')"
    by (simp add: FBNet_init_Inr_iff example_net_def example_fs_def readlines_example
        example_heap_def)
  moreover have "h_val ?h' = example_params"
    by (rule ext) (auto simp: init_loop_val example_params_def example_heap_def example_env_def
        example_cands_def)
  ultimately show ?thesis by blast
qed

lemma speed_row_example: "speed_row example_env example_line = Inr [1, 2]"
  by (simp add: speed_row_def example_line_def strip_def py_isspace_def example_env_def)

lemma example_step:
  assumes "k < 21"
  shows "\<exists>lat' a' b'. searchable_step example_env example_params example_net 2 temperature
           (k, lat, Ten [Sc a, Sc b]) = Inr (Suc k, lat', Ten [Sc a', Sc b'])"
proof -
  have th: "py_nth (net_theta example_net) k = Inr (2 + k)"
    using assms nth_upt [of 2 k 24] by (simp add: py_nth_def example_net_def)
  have par: "example_params (Suc (Suc k)) = Ten [Sc 1, Sc 1]"
    using assms by (simp add: example_params_def)
  have row: "py_nth (net_speed example_net) (Suc k) = Inr example_line"
    using assms by (simp add: py_nth_def example_net_def)
  have mo: "py_nth (net_ops example_net) (Suc k) = Inr (MixedOp_init example_cands)"
    using assms by (simp add: py_nth_def example_net_def)
  have gs: "gumbel_softmax example_env t temperature = t" for t
    by (simp add: example_env_def)
  show ?thesis
    by (simp add: searchable_step_def th par row mo gs speed_row_example repeat_rows_def
        numeral_2_eq_2 tmul_def tadd_def broadcastable_def MixedOp_forward_def iter_tensor_def
        example_cands_def example_ident_def example_double_def)
qed

lemma example_run:
  assumes "k + n \<le> 21"
  shows "\<exists>lat' a' b'. forward_loop example_env example_params example_net 2 temperature
           (replicate n (PyList example_cands)) (k, lat, Ten [Sc a, Sc b])
         = Inr (k + n, lat', Ten [Sc a', Sc b'])"
  using assms
proof (induction n arbitrary: k lat a b)
  case 0
  then show ?case by simp
next
  case (Suc n)
  then have "k < 21" by simp
  from example_step [OF this] obtain lat1 a1 b1 where
    s: "searchable_step example_env example_params example_net 2 temperature
           (k, lat, Ten [Sc a, Sc b]) = Inr (Suc k, lat1, Ten [Sc a1, Sc b1])"
    by blast
  from Suc.prems have "Suc k + n \<le> 21" by simp
  from Suc.IH [OF this, of lat1 a1 b1] obtain lat' a' b' where
    "forward_loop example_env example_params example_net 2 temperature
           (replicate n (PyList example_cands)) (Suc k, lat1, Ten [Sc a1, Sc b1])
         = Inr (Suc k + n, lat', Ten [Sc a', Sc b'])"
    by blast
  then show ?case
    using s by (simp add: block_step_def block_len_def example_cands_def)
qed

lemma example_conv_returns: "\<forall>a h. \<not> isl (nn_Conv2d example_env a h)"
  by (simp add: example_env_def alloc_def Let_def)

theorem FBNet_forward_never_returns_witness:
  "\<exists>blocks h1 net h'. get_blocks example_env example_heap = Inr (blocks, h1) \<and>
     FBNet_init example_env example_fs h1 10 blocks 1 ''./speed.txt'' 0.2 0.6 = Inr (net, h') \<and>
     isl (FBNet_forward example_env (h_val h') net (Ten [Sc 1, Sc 2]) (Ten [Sc 0, Sc 1]) 5)"
proof -
  from get_blocks_returns [OF example_conv_returns] obtain blocks h1 where
    cat: "get_blocks example_env example_heap = Inr (blocks, h1)"
    by blast
  from get_blocks_shape [OF cat] have "length (list_entries blocks) = 22" by simp
  then obtain net h' where
    init: "FBNet_init example_env example_fs h1 10 blocks 1 ''./speed.txt'' 0.2 0.6 = Inr (net, h')"
    by (simp add: FBNet_init_Inr_iff example_fs_def)
  from FBNet_forward_never_returns [OF init]
  have "isl (FBNet_forward example_env (h_val h') net (Ten [Sc 1, Sc 2]) (Ten [Sc 0, Sc 1]) 5)" .
  with cat init show ?thesis by blast
qed

lemma example_step_gen:
  assumes th: "k < length (net_theta net)" "st (net_theta net ! k) = Ten [Sc 1, Sc 1]"
    and row: "Suc k < length (net_speed net)" "net_speed net ! Suc k = example_line"
    and mo: "Suc k < length (net_ops net)" "net_ops net ! Suc k = MixedOp_init cs"
    and cs: "cs = example_cands \<or> cs = [example_ident]"
  shows "\<exists>lat' a' b'. searchable_step example_env st net 2 temperature
           (k, lat, Ten [Sc a, Sc b]) = Inr (Suc k, lat', Ten [Sc a', Sc b'])"
proof -
  have gs: "gumbel_softmax example_env t temperature = t" for t
    by (simp add: example_env_def)
  from cs show ?thesis
  proof
    assume "cs = example_cands"
    then show ?thesis using th row mo
      by (simp add: searchable_step_def py_nth_def gs speed_row_example repeat_rows_def
        numeral_2_eq_2 tmul_def tadd_def broadcastable_def MixedOp_forward_def iter_tensor_def
        example_cands_def example_ident_def example_double_def)
  next
    assume "cs = [example_ident]"
    then show ?thesis using th row mo
      by (simp add: searchable_step_def py_nth_def gs speed_row_example repeat_rows_def
        numeral_2_eq_2 tmul_def tadd_def broadcastable_def MixedOp_forward_def iter_tensor_def
        example_ident_def)
  qed
qed

lemma example_run_gen:
  assumes pat: "\<forall>k<21. k < length (net_theta net) \<and> st (net_theta net ! k) = Ten [Sc 1, Sc 1] \<and>
      Suc k < length (net_speed net) \<and> net_speed net ! Suc k = example_line \<and>
      Suc k < length (net_ops net) \<and>
      (net_ops net ! Suc k = MixedOp_init example_cands \<or> net_ops net ! Suc k = MixedOp_init [example_ident])"
    and "k + n \<le> 21"
  shows "\<exists>lat' a' b'. forward_loop example_env st net 2 temperature
           (replicate n (PyList example_cands)) (k, lat, Ten [Sc a, Sc b])
         = Inr (k + n, lat', Ten [Sc a', Sc b'])"
  using assms(2)
proof (induction n arbitrary: k lat a b)
  case 0
  then show ?case by simp
next
  case (Suc n)
  then have k: "k < 21" by simp
  with pat obtain cs where f: "k < length (net_theta net)" "st (net_theta net ! k) = Ten [Sc 1, Sc 1]"
      "Suc k < length (net_speed net)" "net_speed net ! Suc k = example_line"
      "Suc k < length (net_ops net)" "net_ops net ! Suc k = MixedOp_init cs"
      "cs = example_cands \<or> cs = [example_ident]"
    by blast
  from example_step_gen [where st = st and net = net and k = k and cs = cs, OF f] obtain lat1 a1 b1 where
    s: "searchable_step example_env st net 2 temperature
           (k, lat, Ten [Sc a, Sc b]) = Inr (Suc k, lat1, Ten [Sc a1, Sc b1])"
    by blast
  from Suc.prems have "Suc k + n \<le> 21" by simp
  from Suc.IH [OF this, of lat1 a1 b1] obtain lat' a' b' where
    "forward_loop example_env st net 2 temperature
           (replicate n (PyList example_cands)) (Suc k, lat1, Ten [Sc a1, Sc b1])
         = Inr (Suc k + n, lat', Ten [Sc a', Sc b'])"
    by blast
  then show ?case
    using s by (simp add: block_step_def block_len_def example_cands_def)
qed

lemma example_heap_after:
  assumes "FBNet_init example_env fs example_heap 10 blocks 1 f a b = Inr (net, h')"
    and "list_entries blocks = replicate 21 example_cands @ [cs]"
  shows "h' = \<lparr>h_val = (\<lambda>r. if 2 \<le> r \<and> r < 23 then Ten [Sc 1, Sc 1]
                  else if r = 23 then Ten (replicate (length cs) (Sc 1))
                  else if r = 24 \<or> r = 25 then Ten [] else Sc 0), h_next = 26\<rparr>"
proof -
  have nth: "r < 21 \<Longrightarrow> (replicate 21 example_cands @ [cs]) ! r = example_cands" for r
    by (simp add: nth_append)
  have last: "(replicate 21 example_cands @ [cs]) ! 21 = cs"
    by (simp add: nth_append)
  from assms(1) have h': "h' = \<lparr>h_val = (h_val (snd (snd (init_loop 1 example_heap [] [] blocks))))
                 (h_next example_heap + 22 := fst (linear_init example_env 1984 10),
                  h_next example_heap + 23 := snd (linear_init example_env 1984 10)),
              h_next = h_next example_heap + 24\<rparr>"
    by (auto simp: FBNet_init_Inr_iff)
  have "h_val h' r = (if 2 \<le> r \<and> r < 23 then Ten [Sc 1, Sc 1]
                  else if r = 23 then Ten (replicate (length cs) (Sc 1))
                  else if r = 24 \<or> r = 25 then Ten [] else Sc 0)" for r
  proof -
    consider "r < 2" | "2 \<le> r" "r < 23" | "r = 23" | "r = 24" | "r = 25" | "25 < r" by linarith
    then show ?thesis
    proof cases
      case 2
      then have "r - 2 < 21" by simp
      from nth [OF this] 2 show ?thesis
        by (simp add: h' init_loop_val assms(2) example_heap_def example_env_def example_cands_def
            numeral_2_eq_2)
    next
      case 3
      then show ?thesis using last
        by (simp add: h' init_loop_val assms(2) example_heap_def example_env_def)
    qed (simp_all add: h' init_loop_val assms(2) example_heap_def example_env_def)
  qed
  then have "h_val h' = (\<lambda>r. if 2 \<le> r \<and> r < 23 then Ten [Sc 1, Sc 1]
                  else if r = 23 then Ten (replicate (length cs) (Sc 1))
                  else if r = 24 \<or> r = 25 then Ten [] else Sc 0)"
    by (intro ext)
  moreover have "h_next h' = 26" by (simp add: h' example_heap_def)
  ultimately show ?thesis by (cases h') simp
qed

lemma example_init_explicit:
  "FBNet_init example_env example_fs example_heap 10 example_blocks 1 ''./speed.txt'' 0.2 0.6
     = Inr (example_net, \<lparr>h_val = example_params, h_next = 26\<rparr>)"
proof -
  from example_init obtain h' where
    init: "FBNet_init example_env example_fs example_heap 10 example_blocks 1 ''./speed.txt'' 0.2 0.6
      = Inr (example_net, h')" and v: "h_val h' = example_params"
    by blast
  from init have "h_next h' = 26" by (auto simp: FBNet_init_Inr_iff example_heap_def)
  with v have "h' = \<lparr>h_val = example_params, h_next = 26\<rparr>" by (cases h') simp
  with init show ?thesis by simp
qed

lemma example_init_one:
  "FBNet_init example_env example_fs example_heap 10 example_blocks_one 1 ''./speed.txt'' 0.2 0.6
     = Inr (example_net_one, \<lparr>h_val = example_params_one, h_next = 26\<rparr>)"
proof -
  have le: "list_entries example_blocks_one = replicate 21 example_cands @ [[example_ident]]"
    by (simp add: example_blocks_one_def)
  have "\<exists>h'. FBNet_init example_env example_fs example_heap 10 example_blocks_one 1 ''./speed.txt'' 0.2 0.6
     = Inr (example_net_one, h')"
    by (simp add: FBNet_init_Inr_iff le example_net_one_def example_net_def example_fs_def
        readlines_example example_heap_def)
  then obtain h' where init: "FBNet_init example_env example_fs example_heap 10 example_blocks_one 1
      ''./speed.txt'' 0.2 0.6 = Inr (example_net_one, h')"
    by blast
  have "(\<lambda>r. if 2 \<le> r \<and> r < 23 then Ten [Sc 1, Sc 1]
                  else if r = 23 then Ten (replicate (length [example_ident]) (Sc 1))
                  else if r = 24 \<or> r = 25 then Ten [] else Sc 0) = example_params_one"
    by (intro ext) (auto simp: example_params_one_def example_params_def)
  with example_heap_after [OF init le] init show ?thesis by simp
qed

lemma readlines_example_bad:
  "py_readlines (concat (replicate n example_line) @ ''x'') = replicate n example_line @ [''x'']"
proof -
  have u: "universal_newlines (example_line @ xs) = example_line @ universal_newlines xs" for xs
    by (cases xs) (simp_all add: example_line_def)
  have l: "lines_keepends (example_line @ xs) = example_line # lines_keepends xs" for xs
    by (simp add: example_line_def)
  have "universal_newlines (concat (replicate n example_line) @ ''x'') = concat (replicate n example_line) @ ''x''"
    by (induction n) (simp_all add: u)
  moreover have "lines_keepends (concat (replicate n example_line) @ ''x'') = replicate n example_line @ [''x'']"
    by (induction n) (simp_all add: l)
  ultimately show ?thesis by (simp add: py_readlines_def)
qed

lemma example_init_bad:
  "FBNet_init example_env example_fs_bad example_heap 10 example_blocks 1 ''./speed.txt'' 0.2 0.6
     = Inr (example_net_bad, \<lparr>h_val = example_params, h_next = 26\<rparr>)"
proof -
  have le: "list_entries example_blocks = replicate 21 example_cands @ [example_cands]"
    by (simp add: example_blocks_def)
  have "\<exists>h'. FBNet_init example_env example_fs_bad example_heap 10 example_blocks 1 ''./speed.txt'' 0.2 0.6
     = Inr (example_net_bad, h')"
    by (simp add: FBNet_init_Inr_iff example_net_bad_def example_net_def example_fs_bad_def
        readlines_example_bad example_heap_def)
  then obtain h' where init: "FBNet_init example_env example_fs_bad example_heap 10 example_blocks 1
      ''./speed.txt'' 0.2 0.6 = Inr (example_net_bad, h')"
    by blast
  have "(\<lambda>r. if 2 \<le> r \<and> r < 23 then Ten [Sc 1, Sc 1]
                  else if r = 23 then Ten (replicate (length example_cands) (Sc 1))
                  else if r = 24 \<or> r = 25 then Ten [] else Sc 0) = example_params"
    by (intro ext) (auto simp: example_params_def example_cands_def numeral_2_eq_2)
  with example_heap_after [OF init le] init show ?thesis by simp
qed


lemma example_theta_nth: "k < 22 \<Longrightarrow> [2..<24] ! k = 2 + k"
  using nth_upt [of 2 k 24] by simp

lemma example_forward_batch_of_three:
  "FBNet_forward example_env example_params example_net (Ten [Sc 1, Sc 2, Sc 3]) y temperature
     = Inl RuntimeError"
proof -
  have tl: "tl example_blocks = PyList example_cands # replicate 20 (PyList example_cands) @
      [PyList example_cands, Module example_ident]"
    by (simp add: example_blocks_def numeral_eq_Suc)
  have th: "py_nth (net_theta example_net) 0 = Inr 2"
    by (simp add: py_nth_def example_net_def upt_rec)
  have row: "py_nth (net_speed example_net) (Suc 0) = Inr example_line"
    by (simp add: py_nth_def example_net_def)
  have mo: "py_nth (net_ops example_net) (Suc 0) = Inr (MixedOp_init example_cands)"
    by (simp add: py_nth_def example_net_def)
  have gs: "gumbel_softmax example_env t temperature = t" for t
    by (simp add: example_env_def)
  have step: "searchable_step example_env example_params example_net 3 temperature
      (0, [], Ten [Sc 1, Sc 2, Sc 3]) = Inl RuntimeError"
    by (simp add: searchable_step_def th row mo gs speed_row_example repeat_rows_def
        example_params_def numeral_3_eq_3 tmul_def broadcastable_def MixedOp_forward_def
        iter_tensor_def example_cands_def example_ident_def)
  have blocks: "net_blocks example_net = example_blocks" by (simp add: example_net_def)
  have hd: "py_nth example_blocks 0 = Inr (Module example_stem)"
    by (simp add: py_nth_def example_blocks_def)
  have B: "py_nth (dims (Ten [Sc 1, Sc 2, Sc 3])) 0 = Inr 3" by (simp add: py_nth_def)
  have stem: "block_call example_params (Module example_stem) (Ten [Sc 1, Sc 2, Sc 3])
      = Inr (Ten [Sc 1, Sc 2, Sc 3])"
    by (simp add: block_call_def example_stem_def)
  have first: "block_step example_env example_params example_net 3 temperature (PyList example_cands)
      (0, [], Ten [Sc 1, Sc 2, Sc 3]) = Inl RuntimeError"
    by (simp add: block_step_def block_len_def step example_cands_def)
  show ?thesis
    unfolding FBNet_forward_def B blocks hd tl stem bind_err_simps forward_loop.simps first
    by simp
qed

lemma example_forward_one_candidate:
  "FBNet_forward example_env example_params_one example_net_one (Ten [Sc 1, Sc 2]) y temperature
     = Inl TypeError"
proof -
  have pat: "\<forall>k<21. k < length (net_theta example_net_one) \<and>
      example_params_one (net_theta example_net_one ! k) = Ten [Sc 1, Sc 1] \<and>
      Suc k < length (net_speed example_net_one) \<and> net_speed example_net_one ! Suc k = example_line \<and>
      Suc k < length (net_ops example_net_one) \<and>
      (net_ops example_net_one ! Suc k = MixedOp_init example_cands \<or>
       net_ops example_net_one ! Suc k = MixedOp_init [example_ident])"
  proof (intro allI impI)
    fix k :: nat
    assume "k < 21"
    with nth_upt [of 2 k 24] show "k < length (net_theta example_net_one) \<and>
      example_params_one (net_theta example_net_one ! k) = Ten [Sc 1, Sc 1] \<and>
      Suc k < length (net_speed example_net_one) \<and> net_speed example_net_one ! Suc k = example_line \<and>
      Suc k < length (net_ops example_net_one) \<and>
      (net_ops example_net_one ! Suc k = MixedOp_init example_cands \<or>
       net_ops example_net_one ! Suc k = MixedOp_init [example_ident])"
      by (auto simp: example_net_one_def example_net_def example_params_one_def example_params_def
          nth_append)
  qed
  from example_run_gen [OF pat, of 0 21 temperature "[]" 1 2] obtain lat' a' b' where
    run: "forward_loop example_env example_params_one example_net_one 2 temperature
           (replicate 21 (PyList example_cands)) (0, [], Ten [Sc 1, Sc 2])
         = Inr (21, lat', Ten [Sc a', Sc b'])"
    by auto
  have blocks: "net_blocks example_net_one = example_blocks_one" by (simp add: example_net_one_def)
  have hd: "py_nth example_blocks_one 0 = Inr (Module example_stem)"
    by (simp add: py_nth_def example_blocks_one_def)
  have tl: "tl example_blocks_one = replicate 21 (PyList example_cands) @
      [PyList [example_ident], Module example_ident]"
    by (simp add: example_blocks_one_def)
  have B: "py_nth (dims (Ten [Sc 1, Sc 2])) 0 = Inr 2" by (simp add: py_nth_def)
  have stem: "block_call example_params_one (Module example_stem) (Ten [Sc 1, Sc 2])
      = Inr (Ten [Sc 1, Sc 2])"
    by (simp add: block_call_def example_stem_def)
  have last: "block_step example_env example_params_one example_net_one 2 temperature
      (PyList [example_ident]) (21, lat', Ten [Sc a', Sc b']) = Inl TypeError"
    by (simp add: block_step_def block_len_def block_call_def)
  show ?thesis
    unfolding FBNet_forward_def B blocks hd tl stem bind_err_simps forward_loop_append run
      forward_loop.simps last
    by simp
qed

lemma example_forward_bad_row:
  "FBNet_forward example_env example_params example_net_bad (Ten [Sc 1, Sc 2]) y temperature
     = Inl ValueError"
proof -
  have pat: "\<forall>k<21. k < length (net_theta example_net_bad) \<and>
      example_params (net_theta example_net_bad ! k) = Ten [Sc 1, Sc 1] \<and>
      Suc k < length (net_speed example_net_bad) \<and> net_speed example_net_bad ! Suc k = example_line \<and>
      Suc k < length (net_ops example_net_bad) \<and>
      (net_ops example_net_bad ! Suc k = MixedOp_init example_cands \<or>
       net_ops example_net_bad ! Suc k = MixedOp_init [example_ident])"
  proof (intro allI impI)
    fix k :: nat
    assume "k < 21"
    with nth_upt [of 2 k 24] show "k < length (net_theta example_net_bad) \<and>
      example_params (net_theta example_net_bad ! k) = Ten [Sc 1, Sc 1] \<and>
      Suc k < length (net_speed example_net_bad) \<and> net_speed example_net_bad ! Suc k = example_line \<and>
      Suc k < length (net_ops example_net_bad) \<and>
      (net_ops example_net_bad ! Suc k = MixedOp_init example_cands \<or>
       net_ops example_net_bad ! Suc k = MixedOp_init [example_ident])"
      by (auto simp: example_net_bad_def example_net_def example_params_def nth_append)
  qed
  from example_run_gen [OF pat, of 0 21 temperature "[]" 1 2] obtain lat' a' b' where
    run: "forward_loop example_env example_params example_net_bad 2 temperature
           (replicate 21 (PyList example_cands)) (0, [], Ten [Sc 1, Sc 2])
         = Inr (21, lat', Ten [Sc a', Sc b'])"
    by auto
  have blocks: "net_blocks example_net_bad = example_blocks" by (simp add: example_net_bad_def example_net_def)
  have hd: "py_nth example_blocks 0 = Inr (Module example_stem)"
    by (simp add: py_nth_def example_blocks_def)
  have tl: "tl example_blocks = replicate 21 (PyList example_cands) @
      [PyList example_cands, Module example_ident]"
    by (simp add: example_blocks_def)
  have th: "py_nth (net_theta example_net_bad) 21 = Inr 23"
    using example_theta_nth [of 21] by (simp add: py_nth_def example_net_bad_def example_net_def del: upt_Suc)
  have row: "py_nth (net_speed example_net_bad) 22 = Inr ''x''"
    by (simp add: py_nth_def example_net_bad_def nth_append)
  have bad: "speed_row example_env ''x'' = Inl ValueError"
    by (simp add: speed_row_def strip_def py_isspace_def example_env_def)
  have step: "searchable_step example_env example_params example_net_bad 2 temperature
      (21, lat', Ten [Sc a', Sc b']) = Inl ValueError"
    by (simp add: searchable_step_def th row bad Let_def)
  have B: "py_nth (dims (Ten [Sc 1, Sc 2])) 0 = Inr 2" by (simp add: py_nth_def)
  have stem: "block_call example_params (Module example_stem) (Ten [Sc 1, Sc 2])
      = Inr (Ten [Sc 1, Sc 2])"
    by (simp add: block_call_def example_stem_def)
  have last: "block_step example_env example_params example_net_bad 2 temperature
      (PyList example_cands) (21, lat', Ten [Sc a', Sc b']) = Inl ValueError"
    by (simp add: block_step_def block_len_def step example_cands_def)
  show ?thesis
    unfolding FBNet_forward_def B blocks hd tl stem bind_err_simps forward_loop_append run
      forward_loop.simps last
    by simp
qed



lemma example_first_step:
  "searchable_step example_env example_params example_net 2 5 (0, [], Ten [Sc 1, Sc 2])
   = Inr (1, [Ten [Ten [Sc 6, Sc 6], Ten [Sc 6, Sc 6]]], Ten [Sc 3, Sc 6])"
  by (simp add: searchable_step_def example_net_def example_params_def example_env_def
      py_nth_def speed_row_def strip_def py_isspace_def repeat_rows_def numeral_2_eq_2
      tmul_def tadd_def broadcastable_def MixedOp_forward_def iter_tensor_def
      example_cands_def example_ident_def example_double_def example_line_def upt_rec)

theorem FBNet_forward_index_error_witness:
  "FBNet_init example_env example_fs example_heap 10 example_blocks 1 ''./speed.txt'' 0.2 0.6
     = Inr (example_net, \<lparr>h_val = example_params, h_next = 26\<rparr>) \<and>
   FBNet_forward example_env example_params example_net (Ten [Sc 1, Sc 2]) (Ten [Sc 0, Sc 1]) 5
     = Inl IndexError \<and>
   py_nth (net_ops example_net) 22 = Inl IndexError \<and>
   searchable_step example_env example_params example_net 2 5 (0, [], Ten [Sc 1, Sc 2])
     = Inr (1, [Ten [Ten [Sc 6, Sc 6], Ten [Sc 6, Sc 6]]], Ten [Sc 3, Sc 6]) \<and>
   MixedOp_forward example_params (net_ops example_net ! Suc 0) (Ten [Sc 1, Sc 2])
     (gumbel_softmax example_env (repeat_rows 2 (example_params (net_theta example_net ! 0))) 5)
     = Inr (Ten [Sc 3, Sc 6])"
proof -
  note init = example_init_explicit
  note T = FBNet_forward_index_error [OF init, where ev' = example_env and st = example_params
      and input = "Ten [Sc 1, Sc 2]" and target = "Ten [Sc 0, Sc 1]" and temperature = 5 and B = 2]
  from T have ops: "py_nth (net_ops example_net) 22 = Inl IndexError" by (rule conjunct2 [THEN conjunct1])
  from T have step: "\<forall>k lat d k' lat' d'.
      searchable_step example_env example_params example_net 2 5 (k, lat, d) = Inr (k', lat', d') \<longrightarrow>
      k' = Suc k \<and>
      MixedOp_forward example_params (net_ops example_net ! Suc k) d
        (gumbel_softmax example_env (repeat_rows 2 (example_params (net_theta example_net ! k))) 5) = Inr d'"
    by (rule conjunct2 [THEN conjunct2, THEN conjunct1])
  from T have last: "\<forall>stem pre cs post data.
      example_blocks = Module stem # pre @ PyList cs # post \<and> list_entries post = [] \<and>
      1 < length cs \<and> dims (Ten [Sc 1, Sc 2]) \<noteq> [] \<and>
      m_call stem example_params (Ten [Sc 1, Sc 2]) = Inr data \<and>
      \<not> isl (forward_loop example_env example_params example_net (dims (Ten [Sc 1, Sc 2]) ! 0) 5 pre (0, [], data)) \<and>
      (22 < length (net_speed example_net) \<longrightarrow> \<not> isl (speed_row example_env (net_speed example_net ! 22))) \<longrightarrow>
      FBNet_forward example_env example_params example_net (Ten [Sc 1, Sc 2]) (Ten [Sc 0, Sc 1]) 5 = Inl IndexError"
    by (rule conjunct2 [THEN conjunct2, THEN conjunct2, THEN conjunct1])
  have layout: "example_blocks =
      Module example_stem # replicate 21 (PyList example_cands) @ PyList example_cands # [Module example_ident]"
    by (simp add: example_blocks_def)
  have post: "list_entries [Module example_ident] = []" by simp
  have cs: "1 < length example_cands" by (simp add: example_cands_def)
  have inp: "dims (Ten [Sc 1, Sc 2]) \<noteq> []" by simp
  have stem: "m_call example_stem example_params (Ten [Sc 1, Sc 2]) = Inr (Ten [Sc 1, Sc 2])"
    by (simp add: example_stem_def)
  have reach: "\<not> isl (forward_loop example_env example_params example_net (dims (Ten [Sc 1, Sc 2]) ! 0) 5
      (replicate 21 (PyList example_cands)) (0, [], Ten [Sc 1, Sc 2]))"
  proof -
    have B: "dims (Ten [Sc 1, Sc 2]) ! 0 = 2" by simp
    show ?thesis unfolding B using example_run [of 0 21 5 "[]" 1 2] by auto
  qed
  have row: "22 < length (net_speed example_net) \<longrightarrow>
      \<not> isl (speed_row example_env (net_speed example_net ! 22))"
    by (simp add: example_net_def speed_row_example)
  from last [rule_format, of example_stem "replicate 21 (PyList example_cands)" example_cands
      "[Module example_ident]" "Ten [Sc 1, Sc 2]"] layout post cs inp stem reach row
  have err: "FBNet_forward example_env example_params example_net (Ten [Sc 1, Sc 2]) (Ten [Sc 0, Sc 1]) 5
     = Inl IndexError"
    by blast
  from step [rule_format, OF example_first_step]
  have mo: "MixedOp_forward example_params (net_ops example_net ! Suc 0) (Ten [Sc 1, Sc 2])
     (gumbel_softmax example_env (repeat_rows 2 (example_params (net_theta example_net ! 0))) 5)
     = Inr (Ten [Sc 3, Sc 6])"
    by simp
  from init err ops example_first_step mo show ?thesis by blast
qed

theorem FBNet_forward_other_errors_counterexample:
  "FBNet_init example_env example_fs example_heap 10 example_blocks 1 ''./speed.txt'' 0.2 0.6
     = Inr (example_net, \<lparr>h_val = example_params, h_next = 26\<rparr>) \<and>
   FBNet_forward example_env example_params example_net (Ten [Sc 1, Sc 2, Sc 3]) (Ten [Sc 0, Sc 1, Sc 0]) 5
     = Inl RuntimeError \<and>
   FBNet_init example_env example_fs example_heap 10 example_blocks_one 1 ''./speed.txt'' 0.2 0.6
     = Inr (example_net_one, \<lparr>h_val = example_params_one, h_next = 26\<rparr>) \<and>
   FBNet_forward example_env example_params_one example_net_one (Ten [Sc 1, Sc 2]) (Ten [Sc 0, Sc 1]) 5
     = Inl TypeError \<and>
   FBNet_init example_env example_fs_bad example_heap 10 example_blocks 1 ''./speed.txt'' 0.2 0.6
     = Inr (example_net_bad, \<lparr>h_val = example_params, h_next = 26\<rparr>) \<and>
   FBNet_forward example_env example_params example_net_bad (Ten [Sc 1, Sc 2]) (Ten [Sc 0, Sc 1]) 5
     = Inl ValueError"
  using example_init_explicit example_forward_batch_of_three example_init_one
    example_forward_one_candidate example_init_bad example_forward_bad_row
  by blast

theorem FBNet_init_count_witness:
  "FBNet_init example_env example_fs example_heap 10
     (Module example_stem # replicate 21 (PyList example_cands)) 1 ''./speed.txt'' 0.2 0.6
     = Inl AssertionError \<and>
   (\<exists>net h'. FBNet_init example_env example_fs example_heap 10 example_blocks 1 ''./speed.txt'' 0.2 0.6
       = Inr (net, h') \<and>
      length (net_theta net) = 22 \<and> distinct (net_theta net) \<and>
      map (h_val h') (net_theta net) = replicate 22 (Ten [Sc 1, Sc 1]) \<and>
      net_ops net = replicate 22 (MixedOp_init example_cands))"
proof -
  have short: "length (list_entries (Module example_stem # replicate 21 (PyList example_cands))) \<noteq> 22"
    by simp
  have full: "length (list_entries example_blocks) = 22" by simp
  have readable: "example_fs ''./speed.txt'' \<noteq> None" by (simp add: example_fs_def)
  from FBNet_init_count [of "Module example_stem # replicate 21 (PyList example_cands)"
      example_env example_fs example_heap 10 1 "''./speed.txt''" "0.2" "0.6"] short
  have a: "FBNet_init example_env example_fs example_heap 10
     (Module example_stem # replicate 21 (PyList example_cands)) 1 ''./speed.txt'' 0.2 0.6
     = Inl AssertionError" by blast
  from FBNet_init_count [of example_blocks example_env example_fs example_heap 10 1
      "''./speed.txt''" "0.2" "0.6"] full readable
  obtain net h' where
    "FBNet_init example_env example_fs example_heap 10 example_blocks 1 ''./speed.txt'' 0.2 0.6
       = Inr (net, h')"
    "length (net_theta net) = length (list_entries example_blocks)"
    "distinct (net_theta net)"
    "map (h_val h') (net_theta net) =
       map (\<lambda>b. Ten (replicate (length b) (Sc 1))) (list_entries example_blocks)"
    "net_ops net = map MixedOp_init (list_entries example_blocks)"
    by blast
  then have "FBNet_init example_env example_fs example_heap 10 example_blocks 1 ''./speed.txt'' 0.2 0.6
       = Inr (net, h') \<and>
      length (net_theta net) = 22 \<and> distinct (net_theta net) \<and>
      map (h_val h') (net_theta net) = replicate 22 (Ten [Sc 1, Sc 1]) \<and>
      net_ops net = replicate 22 (MixedOp_init example_cands)"
    by (simp add: example_cands_def numeral_2_eq_2)
  with a show ?thesis by blast
qed

lemma first_position_reads_row_1:
  "searchable_step example_env example_params
     (example_net\<lparr>net_speed := [''2 2'', ''1 2'', ''1 1'']\<rparr>) 2 5 (0, [], Ten [Sc 1, Sc 2])
   = Inr (1, [Ten [Ten [Sc 6, Sc 6], Ten [Sc 6, Sc 6]]], Ten [Sc 3, Sc 6])"
  by (simp add: searchable_step_def example_net_def example_params_def example_env_def
      py_nth_def speed_row_def strip_def py_isspace_def repeat_rows_def numeral_2_eq_2
      tmul_def tadd_def broadcastable_def MixedOp_forward_def iter_tensor_def
      example_cands_def example_ident_def example_double_def upt_rec)

section \<open>The trainer\<close>

lemma py_in_member: "v \<in> set xs \<Longrightarrow> py_in ev st v xs \<noteq> Inr False"
  by (induction xs) (auto simp: bind_err_Inr_iff)

lemma mod_params_loop_subset:
  "mod_params_loop ev st th acc vs = Inr ps \<Longrightarrow> set ps \<subseteq> set acc \<union> (set vs - set th)"
proof (induction vs arbitrary: acc)
  case Nil
  then show ?case by simp
next
  case (Cons v vs)
  from Cons.prems obtain b where b: "py_in ev st v th = Inr b"
    and rest: "mod_params_loop ev st th (if \<not> b then acc @ [v] else acc) vs = Inr ps"
    by (auto simp: bind_err_Inr_iff)
  from Cons.IH [OF rest] have sub: "set ps \<subseteq> set (if \<not> b then acc @ [v] else acc) \<union> (set vs - set th)" .
  show ?case
  proof (cases b)
    case True
    with sub show ?thesis by auto
  next
    case False
    with b py_in_member [of v th ev st] have "v \<notin> set th" by auto
    with sub False show ?thesis by auto
  qed
qed

lemma Trainer_init_InrD:
  assumes "Trainer_init ev st net w_lr w_mom w_wd t_lr t_wd temp0 decay = Inr tr"
  shows "tr_mod tr = net \<and> tr_theta tr = net_theta net \<and> tr_t_opt tr = net_theta net \<and>
         tr_w tr = tr_w_opt tr \<and> tr_temp tr = temp0 \<and> tr_tem_decay tr = decay \<and>
         set (tr_w_opt tr) \<subseteq> set (FBNet_parameters net) - set (net_theta net)"
proof -
  from assms obtain ps where ps: "mod_params_loop ev st (net_theta net) [] (FBNet_parameters net) = Inr ps"
    and tr: "tr = \<lparr>tr_mod = net, tr_theta = net_theta net, tr_w = ps,
                         tr_tem_decay = decay, tr_temp = temp0,
                         tr_acc_avg = meter_init, tr_ce_avg = meter_init, tr_lat_avg = meter_init,
                         tr_w_opt = ps, tr_t_opt = net_theta net, tr_logged = []\<rparr>"
    by (auto simp: Trainer_init_def Let_def bind_err_Inr_iff split: option.splits)
  from mod_params_loop_subset [OF ps] tr show ?thesis by auto
qed

lemma optimizer_lists_disjoint:
  assumes "Trainer_init ev st net w_lr w_mom w_wd t_lr t_wd temp0 decay = Inr tr"
  shows "set (tr_w_opt tr) \<inter> set (tr_t_opt tr) = {}"
  using Trainer_init_InrD [OF assms] by auto

lemma train_w_frame:
  assumes "train_w ev (tr, st) x y decay = Inr (tr', st')"
  shows "(\<forall>r. r \<notin> set (tr_w_opt tr) \<longrightarrow> st' r = st r) \<and> tr_w_opt tr' = tr_w_opt tr \<and>
         tr_t_opt tr' = tr_t_opt tr \<and> tr_theta tr' = tr_theta tr \<and> tr_tem_decay tr' = tr_tem_decay tr \<and>
         tr_temp tr' = (if decay then tr_temp tr * tr_tem_decay tr else tr_temp tr)"
  using assms
  by (cases decay) (auto simp: train_w_def bind_err_Inr_iff opt_step_def Let_def)

lemma train_t_frame:
  assumes "train_t ev (tr, st) x y decay = Inr (tr', st')"
  shows "(\<forall>r. r \<notin> set (tr_t_opt tr) \<longrightarrow> st' r = st r) \<and> tr_w_opt tr' = tr_w_opt tr \<and>
         tr_t_opt tr' = tr_t_opt tr \<and> tr_theta tr' = tr_theta tr \<and> tr_tem_decay tr' = tr_tem_decay tr \<and>
         tr_temp tr' = (if decay then tr_temp tr * tr_tem_decay tr else tr_temp tr)"
  using assms
  by (cases decay) (auto simp: train_t_def bind_err_Inr_iff opt_step_def Let_def)

lemma train_w_keeps_theta:
  assumes "Trainer_init ev st0 net w_lr w_mom w_wd t_lr t_wd temp0 decay = Inr tr"
    and "train_w ev' (tr, st) x y d = Inr (tr', st')"
  shows "\<forall>r \<in> set (tr_theta tr). st' r = st r"
  using Trainer_init_InrD [OF assms(1)] train_w_frame [OF assms(2)] by auto

lemma train_t_keeps_weights:
  assumes "train_t ev (tr, st) x y d = Inr (tr', st')"
  shows "\<forall>r. r \<notin> set (tr_t_opt tr) \<longrightarrow> st' r = st r"
  using train_t_frame [OF assms] by auto

text \<open>
  C7. The claim is that the two optimizers' parameter sets are disjoint and together
  cover all trainable tensors. They are disjoint, a weight step leaves theta unchanged
  and a theta step leaves every other tensor unchanged (the lemmas above), but they do
  not cover: no parameter of the stem, the head or a candidate operation, created
  before the network, is in either optimizer's list.
\<close>

theorem optimizers_miss_block_parameters:
  assumes "FBNet_init ev fs h num_classes blocks init_theta speed_f alpha beta = Inr (net, h')"
    and "Trainer_init ev' st net w_lr w_mom w_wd t_lr t_wd temp0 decay = Inr tr"
    and "b \<in> set blocks" and "r \<in> set (block_params b)" and "r < h_next h"
  shows "r \<notin> set (tr_w_opt tr) \<and> r \<notin> set (tr_t_opt tr)"
proof -
  from assms(1) have th: "net_theta net = [h_next h..<h_next h + 22]"
    and cl: "FBNet_parameters net = [h_next h + 22, h_next h + 23]"
    by (auto simp: FBNet_init_Inr_iff FBNet_parameters_def)
  from Trainer_init_InrD [OF assms(2)] have
    "set (tr_w_opt tr) \<subseteq> set (FBNet_parameters net)" "tr_t_opt tr = net_theta net" by auto
  with th cl assms(5) show ?thesis by (auto simp del: upt_Suc)
qed










lemma theta_calls_pass [simp]:
  "length (filter (\<lambda>c. fst c = ThetaStep) (pass_calls kind epoch ds)) =
     (if kind = ThetaStep then length ds else 0)"
  by (simp add: pass_calls_def filter_map o_def case_prod_unfold)



lemma length_pass_calls [simp]: "length (pass_calls kind epoch ds) = length ds"
  by (simp add: pass_calls_def)

lemma length_schedule:
  "length (schedule W T tot start) = nat start * length W + nat tot * (length T + length W)"
  by (simp add: schedule_def length_concat o_def sum_list_triv)










theorem optimizers_miss_block_parameters_witness:
  "(\<exists>h'. FBNet_init example_env example_fs example_heap 10 example_blocks 1 ''./speed.txt'' 0.2 0.6
      = Inr (example_net, h')) \<and>
   Trainer_init example_env example_params example_net 0.01 0.9 0.0001 0.001 0.003 5 0.965
      = Inr example_trainer \<and>
   Module example_stem \<in> set example_blocks \<and> 0 \<in> set (block_params (Module example_stem)) \<and>
   0 < h_next example_heap \<and>
   0 \<notin> set (tr_w_opt example_trainer) \<and> 0 \<notin> set (tr_t_opt example_trainer)"
proof -
  from example_init obtain h' where
    init: "FBNet_init example_env example_fs example_heap 10 example_blocks 1 ''./speed.txt'' 0.2 0.6
      = Inr (example_net, h')"
    by blast
  have tr: "Trainer_init example_env example_params example_net 0.01 0.9 0.0001 0.001 0.003 5 0.965
      = Inr example_trainer"
    by (simp add: Trainer_init_def FBNet_parameters_def example_net_def example_trainer_def
        example_env_def upt_rec Let_def)
  have b: "Module example_stem \<in> set example_blocks" by (simp add: example_blocks_def)
  have r: "0 \<in> set (block_params (Module example_stem))" by (simp add: example_stem_def)
  have old: "0 < h_next example_heap" by (simp add: example_heap_def)
  from optimizers_miss_block_parameters [OF init tr b r old] init tr b r old
  show ?thesis by blast
qed

section \<open>Saving theta\<close>

lemma no_line_break_simps [simp]:
  "no_line_break []"
  "no_line_break (c # s) = (c \<noteq> CHR 0x0A \<and> c \<noteq> CHR 0x0D \<and> no_line_break s)"
  "no_line_break (s @ t) = (no_line_break s \<and> no_line_break t)"
  by (auto simp: no_line_break_def)

lemma universal_newlines_id: "no_line_break s \<Longrightarrow> universal_newlines s = s"
  by (induction s rule: universal_newlines.induct) auto

lemma lines_keepends_single:
  "CHR 0x0A \<notin> set s \<Longrightarrow> lines_keepends s = (if s = [] then [] else [s])"
  by (induction s) (auto split: list.splits)

lemma readlines_single: "no_line_break s \<Longrightarrow> length (py_readlines s) \<le> 1"
  by (simp add: py_readlines_def universal_newlines_id lines_keepends_single no_line_break_def)

lemma no_line_break_join:
  "no_line_break sep \<Longrightarrow> \<forall>x \<in> set xs. no_line_break x \<Longrightarrow> no_line_break (py_join sep xs)"
  by (induction sep xs rule: py_join.induct) auto

lemma save_theta_loop_InrD:
  assumes "save_theta_loop ev st ts res f = Inr (res', f')"
    and "\<forall>t. no_line_break (py_str ev t)"
    and "no_line_break f"
  shows "no_line_break f' \<and> length res' = length res + length ts \<and>
         map Inr (drop (length res) res') = map (\<lambda>t. iter_tensor (st t)) ts \<and>
         take (length res) res' = res"
  using assms
proof (induction ts arbitrary: res f)
  case Nil
  then show ?case by simp
next
  case (Cons t ts)
  from Cons.prems(1) obtain t_list where it: "iter_tensor (st t) = Inr t_list"
    and rest: "save_theta_loop ev st ts (res @ [t_list])
         (f @ (py_join '' '' (map (py_str ev) t_list) @ ''/n'')) = Inr (res', f')"
    by (auto simp: bind_err_Inr_iff Let_def)
  have "no_line_break (f @ (py_join '' '' (map (py_str ev) t_list) @ ''/n''))"
    using Cons.prems(2,3) by (simp add: no_line_break_join)
  from Cons.IH [OF rest Cons.prems(2) this]
  have IH: "no_line_break f'" "length res' = length (res @ [t_list]) + length ts"
    "map Inr (drop (length (res @ [t_list])) res') = map (\<lambda>t. iter_tensor (st t)) ts"
    "take (length (res @ [t_list])) res' = res @ [t_list]" by auto
  have "take (length res) res' = take (length res) (take (length (res @ [t_list])) res')"
    by simp
  also have "\<dots> = res" by (simp only: IH(4)) simp
  finally have tk: "take (length res) res' = res" .
  from IH(2,4) have nth: "res' ! length res = t_list"
    by (metis length_append_singleton lessI nth_append_length nth_take)
  have "drop (length res) res' = t_list # drop (Suc (length res)) res'"
    using IH(2) nth by (simp add: Cons_nth_drop_Suc [symmetric])
  with IH it tk show ?case by simp
qed

text \<open>
  C9. The claim is that the file holds one newline-terminated line per theta vector.
  The result is the list of the vectors' elements, but each vector's text is followed
  by the two characters \<^verbatim>\<open>/n\<close>, not by a line end: when the elements' texts hold no line
  break, neither does the file, and reading it back gives at most one line.
\<close>

theorem save_theta_single_line:
  assumes "save_theta ev tr st fs save_path = Inr (res, fs')"
    and "\<forall>t. no_line_break (py_str ev t)"
  shows "map Inr res = map (\<lambda>t. iter_tensor (st t)) (tr_theta tr) \<and>
         (\<exists>content. fs' save_path = Some content \<and> no_line_break content \<and>
            length (py_readlines content) \<le> 1)"
proof -
  from assms(1) obtain f where loop: "save_theta_loop ev st (tr_theta tr) [] [] = Inr (res, f)"
    and fs': "fs' = fs(save_path \<mapsto> f)"
    by (auto simp: save_theta_def bind_err_Inr_iff)
  from save_theta_loop_InrD [OF loop assms(2)] have "no_line_break f"
    "map Inr res = map (\<lambda>t. iter_tensor (st t)) (tr_theta tr)" by auto
  with fs' readlines_single [of f] show ?thesis by simp
qed

lemma save_theta_loop_returns:
  "\<forall>t \<in> set ts. \<not> isl (iter_tensor (st t)) \<Longrightarrow> \<not> isl (save_theta_loop ev st ts res f)"
proof (induction ts arbitrary: res f)
  case Nil
  then show ?case by simp
next
  case (Cons t ts)
  then show ?case by (cases "iter_tensor (st t)") (auto simp: Let_def)
qed

theorem save_theta_single_line_witness:
  "(\<forall>t. no_line_break (py_str example_env t)) \<and>
   (\<exists>res fs' content. save_theta example_env example_trainer example_params example_fs ''theta.txt''
        = Inr (res, fs') \<and> length res = 22 \<and>
      fs' ''theta.txt'' = Some content \<and> length (py_readlines content) \<le> 1)"
proof -
  have str: "\<forall>t. no_line_break (py_str example_env t)"
    by (simp add: example_env_def)
  have "\<not> isl (save_theta_loop example_env example_params (tr_theta example_trainer) [] [])"
    by (rule save_theta_loop_returns)
      (auto simp: example_trainer_def example_params_def iter_tensor_def simp del: upt_Suc)
  then obtain res fs' where
    run: "save_theta example_env example_trainer example_params example_fs ''theta.txt'' = Inr (res, fs')"
    by (cases "save_theta_loop example_env example_params (tr_theta example_trainer) [] []")
      (auto simp: save_theta_def)
  from save_theta_single_line [OF run str] obtain content where
    c: "map Inr res = map (\<lambda>t. iter_tensor (example_params t)) (tr_theta example_trainer)"
      "fs' ''theta.txt'' = Some content" "length (py_readlines content) \<le> 1"
    by blast
  from c(1) have "length (map Inr res :: (py_error + tensor list) list) = 22"
    by (simp add: example_trainer_def del: upt_Suc)
  then have "length res = 22" by simp
  with run c str show ?thesis by blast
qed

section \<open>The operation candidate\<close>

text \<open>
  C10. Two calls of the constructor of \<^verbatim>\<open>FBNetBlock\<close> that differ only in \<open>kernel_size\<close>,
  from the same heap, give the same result: the same error, or the same block and so
  the same function of every input. The block's \<^verbatim>\<open>op\<close> is a 1x1 convolution, a rectifier,
  the depthwise convolution, a rectifier and a 1x1 convolution, and the depthwise
  convolution is the one that \<^verbatim>\<open>nn.Conv2d\<close> builds for the kernel size 3, whatever
  \<open>kernel_size\<close> is.
\<close>

theorem FBNetBlock_ignores_kernel_size:
  "FBNetBlock_init ev h C_in C_out k1 stride expansion group' bn =
     FBNetBlock_init ev h C_in C_out k2 stride expansion group' bn \<and>
   (\<forall>blk1 h1 blk2 h2.
      FBNetBlock_init ev h C_in C_out k1 stride expansion group' bn = Inr (blk1, h1) \<longrightarrow>
      FBNetBlock_init ev h C_in C_out k2 stride expansion group' bn = Inr (blk2, h2) \<longrightarrow>
      (\<forall>st x. FBNetBlock_forward st blk1 x = FBNetBlock_forward st blk2 x) \<and>
      (\<exists>conv1 ha conv2 hb conv3 hc.
         nn_Conv2d ev \<lparr>cv_in = C_in, cv_out = C_in * expansion, cv_kernel = 1, cv_stride = 1,
           cv_padding = 0, cv_groups = group', cv_bias = True\<rparr> h = Inr (conv1, ha) \<and>
         nn_Conv2d ev \<lparr>cv_in = C_in * expansion, cv_out = C_in * expansion, cv_kernel = 3,
           cv_stride = stride, cv_padding = 1, cv_groups = C_in * expansion, cv_bias = True\<rparr> ha
           = Inr (conv2, hb) \<and>
         nn_Conv2d ev \<lparr>cv_in = C_in * expansion, cv_out = C_out, cv_kernel = 1, cv_stride = 1,
           cv_padding = 0, cv_groups = group', cv_bias = True\<rparr> hb = Inr (conv3, hc) \<and>
         b_op blk1 = [conv1, nn_ReLU, conv2, nn_ReLU, conv3] \<and> b_op blk2 = b_op blk1))"
proof (intro conjI allI impI)
  show same: "FBNetBlock_init ev h C_in C_out k1 stride expansion group' bn =
     FBNetBlock_init ev h C_in C_out k2 stride expansion group' bn"
    by (simp add: FBNetBlock_init_def)
  fix blk1 h1 blk2 h2
  assume one: "FBNetBlock_init ev h C_in C_out k1 stride expansion group' bn = Inr (blk1, h1)"
    and two: "FBNetBlock_init ev h C_in C_out k2 stride expansion group' bn = Inr (blk2, h2)"
  from one two same have eq: "blk2 = blk1" by simp
  show "FBNetBlock_forward st blk1 x = FBNetBlock_forward st blk2 x" for st x
    by (simp add: eq)
  from one have bn: "\<not> bn" by (auto simp: FBNetBlock_init_def)
  from one bn show "\<exists>conv1 ha conv2 hb conv3 hc.
         nn_Conv2d ev \<lparr>cv_in = C_in, cv_out = C_in * expansion, cv_kernel = 1, cv_stride = 1,
           cv_padding = 0, cv_groups = group', cv_bias = True\<rparr> h = Inr (conv1, ha) \<and>
         nn_Conv2d ev \<lparr>cv_in = C_in * expansion, cv_out = C_in * expansion, cv_kernel = 3,
           cv_stride = stride, cv_padding = 1, cv_groups = C_in * expansion, cv_bias = True\<rparr> ha
           = Inr (conv2, hb) \<and>
         nn_Conv2d ev \<lparr>cv_in = C_in * expansion, cv_out = C_out, cv_kernel = 1, cv_stride = 1,
           cv_padding = 0, cv_groups = group', cv_bias = True\<rparr> hb = Inr (conv3, hc) \<and>
         b_op blk1 = [conv1, nn_ReLU, conv2, nn_ReLU, conv3] \<and> b_op blk2 = b_op blk1"
    unfolding eq
    by (auto simp: FBNetBlock_init_def expand_args_def depthwise_args_def project_args_def
        bind_err_Inr_iff Let_def split: if_splits)
qed


theorem FBNetBlock_ignores_kernel_size_witness:
  "\<exists>blk h'. FBNetBlock_init example_env example_heap 16 24 3 2 6 1 False = Inr (blk, h') \<and>
     FBNetBlock_init example_env example_heap 16 24 5 2 6 1 False = Inr (blk, h') \<and>
     length (b_op blk) = 5 \<and>
     (\<exists>ha hb. nn_Conv2d example_env \<lparr>cv_in = 96, cv_out = 96, cv_kernel = 3, cv_stride = 2,
        cv_padding = 1, cv_groups = 96, cv_bias = True\<rparr> ha = Inr (b_op blk ! 2, hb))"
proof -
  have "\<not> isl (FBNetBlock_init example_env example_heap 16 24 3 2 6 1 False)"
    using example_conv_returns by (rule FBNetBlock_init_returns) simp
  then obtain blk h' where
    one: "FBNetBlock_init example_env example_heap 16 24 3 2 6 1 False = Inr (blk, h')"
    by (cases "FBNetBlock_init example_env example_heap 16 24 3 2 6 1 False") auto
  note T = FBNetBlock_ignores_kernel_size [of example_env example_heap 16 24 3 2 6 1 False 5]
  from T one have two: "FBNetBlock_init example_env example_heap 16 24 5 2 6 1 False = Inr (blk, h')"
    by simp
  from T one two obtain conv1 conv2 conv3 ha hb where
    c: "nn_Conv2d example_env \<lparr>cv_in = 16 * 6, cv_out = 16 * 6, cv_kernel = 3,
           cv_stride = 2, cv_padding = 1, cv_groups = 16 * 6, cv_bias = True\<rparr> ha
           = Inr (conv2, hb)"
    and op: "b_op blk = [conv1, nn_ReLU, conv2, nn_ReLU, conv3]"
    by blast
  from op have len: "length (b_op blk) = 5" and nth: "b_op blk ! 2 = conv2"
    by simp_all
  from c nth have "nn_Conv2d example_env \<lparr>cv_in = 96, cv_out = 96, cv_kernel = 3, cv_stride = 2,
        cv_padding = 1, cv_groups = 96, cv_bias = True\<rparr> ha = Inr (b_op blk ! 2, hb)"
    by simp
  then have "\<exists>ha hb. nn_Conv2d example_env \<lparr>cv_in = 96, cv_out = 96, cv_kernel = 3, cv_stride = 2,
        cv_padding = 1, cv_groups = 96, cv_bias = True\<rparr> ha = Inr (b_op blk ! 2, hb)"
    by blast
  with len have "length (b_op blk) = 5 \<and> (\<exists>ha hb. nn_Conv2d example_env \<lparr>cv_in = 96, cv_out = 96,
        cv_kernel = 3, cv_stride = 2, cv_padding = 1, cv_groups = 96, cv_bias = True\<rparr> ha
        = Inr (b_op blk ! 2, hb))"
    by simp
  with one two show ?thesis by blast
qed

end
